theory Spec2Isabelle
  imports Main "HOL-Library.Product_Lexorder"
begin

section \<open>Python values and exceptions\<close>

text \<open>
  The JSON documents the program reads (remote API bodies, the request body) are Python
  values after \<^verbatim>\<open>json()\<close>: \<^verbatim>\<open>None\<close>, booleans, integers, strings, lists and
  dictionaries. A dictionary is the list of its items (keys distinct). A \<open>string\<close> is a
  sequence of code points below 256. JSON numbers with a fraction are not modelled.
\<close>

datatype json =
    JNull
  | JBool bool
  | JInt int
  | JStr string
  | JArr "json list"
  | JObj "(string \<times> json) list"

text \<open>
  The exception classes that decide a branch of the program. \<open>RequestException\<close> stands
  for \<^verbatim>\<open>requests.exceptions.RequestException\<close> and all its subclasses (the only
  class the program catches selectively); \<open>PlainException\<close> is \<^verbatim>\<open>Exception\<close>
  raised as such; \<open>OtherException\<close> is any other subclass of \<^verbatim>\<open>Exception\<close>.
  An exception carries the text \<^verbatim>\<open>str(e)\<close>.
\<close>

datatype exn_class =
    RequestException
  | ValueError
  | AttributeError
  | TypeError
  | KeyError
  | IndexError
  | BadRequest
  | PlainException
  | OtherException

datatype py_exn = PyExn (exn_cls: exn_class) (exn_str: string)

text \<open>Truthiness, as \<^verbatim>\<open>if x:\<close> and \<^verbatim>\<open>not x\<close> read it.\<close>

fun truthy :: "json \<Rightarrow> bool" where
  "truthy JNull = False"
| "truthy (JBool b) = b"
| "truthy (JInt i) = (i \<noteq> 0)"
| "truthy (JStr s) = (s \<noteq> [])"
| "truthy (JArr xs) = (xs \<noteq> [])"
| "truthy (JObj kvs) = (kvs \<noteq> [])"

fun type_name :: "json \<Rightarrow> string" where
  "type_name JNull = ''NoneType''"
| "type_name (JBool b) = ''bool''"
| "type_name (JInt i) = ''int''"
| "type_name (JStr s) = ''str''"
| "type_name (JArr xs) = ''list''"
| "type_name (JObj kvs) = ''dict''"

text \<open>
  The texts of the errors the interpreter itself raises are those of CPython 3.12; the
  program only ever copies them into a response or a log line.
\<close>

definition quoted :: "string \<Rightarrow> string" where
  "quoted s = [CHR 0x27] @ s @ [CHR 0x27]"

definition no_attribute :: "json \<Rightarrow> string \<Rightarrow> py_exn" where
  "no_attribute v a =
     PyExn AttributeError
       (quoted (type_name v) @ '' object has no attribute '' @ quoted a)"

text \<open>\<^verbatim>\<open>d.get(key, default)\<close>: only a dictionary has the method.\<close>

definition py_get :: "json \<Rightarrow> string \<Rightarrow> json \<Rightarrow> py_exn + json" where
  "py_get d k dflt =
     (case d of
        JObj kvs \<Rightarrow> (case map_of kvs k of Some v \<Rightarrow> Inr v | None \<Rightarrow> Inr dflt)
      | _ \<Rightarrow> Inl (no_attribute d ''get''))"

fun is_substring :: "string \<Rightarrow> string \<Rightarrow> bool" where
  "is_substring k [] = (k = [])"
| "is_substring k (x # xs) = (take (length k) (x # xs) = k \<or> is_substring k xs)"

text \<open>\<^verbatim>\<open>key in x\<close> for a string \<open>key\<close>.\<close>

definition py_contains :: "string \<Rightarrow> json \<Rightarrow> py_exn + bool" where
  "py_contains k x =
     (case x of
        JObj kvs \<Rightarrow> Inr (k \<in> set (map fst kvs))
      | JArr xs \<Rightarrow> Inr (JStr k \<in> set xs)
      | JStr s \<Rightarrow> Inr (is_substring k s)
      | _ \<Rightarrow> Inl (PyExn TypeError (''argument of type '' @ quoted (type_name x) @ '' is not iterable'')))"

text \<open>\<^verbatim>\<open>x[key]\<close> for a string \<open>key\<close>.\<close>

definition py_index :: "json \<Rightarrow> string \<Rightarrow> py_exn + json" where
  "py_index x k =
     (case x of
        JObj kvs \<Rightarrow>
          (case map_of kvs k of
             Some v \<Rightarrow> Inr v
           | None \<Rightarrow> Inl (PyExn KeyError (quoted k)))
      | JArr xs \<Rightarrow> Inl (PyExn TypeError ''list indices must be integers or slices, not str'')
      | JStr s \<Rightarrow> Inl (PyExn TypeError (''string indices must be integers, not '' @ quoted ''str''))
      | _ \<Rightarrow> Inl (PyExn TypeError (quoted (type_name x) @ '' object is not subscriptable'')))"

text \<open>
  \<^verbatim>\<open>for item in x\<close>: a list gives its elements, a dictionary its keys, a string its
  characters; nothing else can be iterated.
\<close>

definition py_iter :: "json \<Rightarrow> py_exn + json list" where
  "py_iter x =
     (case x of
        JArr xs \<Rightarrow> Inr xs
      | JObj kvs \<Rightarrow> Inr (map (\<lambda>kv. JStr (fst kv)) kvs)
      | JStr s \<Rightarrow> Inr (map (\<lambda>c. JStr [c]) s)
      | _ \<Rightarrow> Inl (PyExn TypeError (quoted (type_name x) @ '' object is not iterable'')))"

text \<open>\<^verbatim>\<open>s.split(sep)\<close> for a one-character separator.\<close>

fun split_on :: "char \<Rightarrow> string \<Rightarrow> string list" where
  "split_on c [] = [[]]"
| "split_on c (x # xs) =
     (if x = c then [] # split_on c xs
      else (case split_on c xs of
              p # ps \<Rightarrow> (x # p) # ps
            | [] \<Rightarrow> [[x]]))"

definition py_split :: "json \<Rightarrow> char \<Rightarrow> py_exn + string list" where
  "py_split v c =
     (case v of
        JStr s \<Rightarrow> Inr (split_on c s)
      | _ \<Rightarrow> Inl (no_attribute v ''split''))"

definition py_first :: "'a list \<Rightarrow> py_exn + 'a" where
  "py_first xs =
     (case xs of
        x # _ \<Rightarrow> Inr x
      | [] \<Rightarrow> Inl (PyExn IndexError ''list index out of range''))"

section \<open>Time bucketing (lines 107-110 and 132-136)\<close>

text \<open>
  \<^verbatim>\<open>Counter(dates)\<close> is a dictionary from each date to the number of its occurrences,
  in the order of first occurrence; a missing key reads as 0.
\<close>

fun counter_incr :: "'a \<Rightarrow> ('a \<times> nat) list \<Rightarrow> ('a \<times> nat) list" where
  "counter_incr x [] = [(x, 1)]"
| "counter_incr x ((k, n) # kvs) =
     (if k = x then (k, Suc n) # kvs else (k, n) # counter_incr x kvs)"

definition Counter :: "'a list \<Rightarrow> ('a \<times> nat) list" where
  "Counter xs = foldl (\<lambda>c x. counter_incr x c) [] xs"

definition counter_keys :: "('a \<times> nat) list \<Rightarrow> 'a list" where
  "counter_keys c = map fst c"

definition counter_get :: "('a \<times> nat) list \<Rightarrow> 'a \<Rightarrow> nat" where
  "counter_get c k = (case map_of c k of Some n \<Rightarrow> n | None \<Rightarrow> 0)"

text \<open>
  \<^verbatim>\<open>[datetime.fromisoformat(ts.split("T")[0]) for ts in timestamps]\<close>: the elements are
  read in order and the first one that fails raises. The library's parser is the
  parameter \<open>fromiso\<close>; its values are ordered as \<^verbatim>\<open>datetime\<close> values are.
\<close>

definition date_of :: "(string \<Rightarrow> py_exn + 'd) \<Rightarrow> json \<Rightarrow> py_exn + 'd" where
  "date_of fromiso ts =
     (case py_split ts (CHR ''T'') of
        Inl e \<Rightarrow> Inl e
      | Inr parts \<Rightarrow>
          (case py_first parts of
             Inl e \<Rightarrow> Inl e
           | Inr p \<Rightarrow> fromiso p))"

fun dates_of :: "(string \<Rightarrow> py_exn + 'd) \<Rightarrow> json list \<Rightarrow> py_exn + 'd list" where
  "dates_of fromiso [] = Inr []"
| "dates_of fromiso (ts # tss) =
     (case date_of fromiso ts of
        Inl e \<Rightarrow> Inl e
      | Inr d \<Rightarrow>
          (case dates_of fromiso tss of
             Inl e \<Rightarrow> Inl e
           | Inr ds \<Rightarrow> Inr (d # ds)))"

text \<open>
  Lines 107-110 (and 133-136): the sorted dates and, in parallel, their counts.
\<close>

definition daily_buckets ::
  "(string \<Rightarrow> py_exn + 'd::linorder) \<Rightarrow> json list \<Rightarrow> py_exn + ('d list \<times> nat list)" where
  "daily_buckets fromiso timestamps =
     (case dates_of fromiso timestamps of
        Inl e \<Rightarrow> Inl e
      | Inr dates \<Rightarrow>
          (let date_counts = Counter dates;
               sorted_dates = sort (counter_keys date_counts);
               counts = map (counter_get date_counts) sorted_dates
           in Inr (sorted_dates, counts)))"

subsection \<open>Calendar dates\<close>

text \<open>
  Modelled from the library documentation, for strings in the date-only form
  \<^verbatim>\<open>YYYY-MM-DD\<close>, which is what the part of an ISO-8601 timestamp before its
  \<^verbatim>\<open>T\<close> is: \<^verbatim>\<open>datetime.fromisoformat\<close> gives midnight of that day, here the
  triple (year, month, day), ordered as the \<^verbatim>\<open>datetime\<close> values are. Every other
  string is reported as a \<open>ValueError\<close>; the library of some interpreter versions reads
  further forms, which is why the properties of the aggregation are stated for every
  parser.
\<close>

type_synonym date = "nat \<times> nat \<times> nat"

definition digit_of :: "char \<Rightarrow> nat option" where
  "digit_of c =
     (let n = (of_char c :: nat)
      in if 48 \<le> n \<and> n \<le> 57 then Some (n - 48) else None)"

fun digits_value :: "nat \<Rightarrow> string \<Rightarrow> nat option" where
  "digits_value acc [] = Some acc"
| "digits_value acc (c # cs) =
     (case digit_of c of
        None \<Rightarrow> None
      | Some d \<Rightarrow> digits_value (10 * acc + d) cs)"

definition is_leap :: "nat \<Rightarrow> bool" where
  "is_leap y = (y mod 4 = 0 \<and> (y mod 100 \<noteq> 0 \<or> y mod 400 = 0))"

definition days_in_month :: "nat \<Rightarrow> nat \<Rightarrow> nat" where
  "days_in_month y m =
     (if m = 2 then (if is_leap y then 29 else 28)
      else if m = 4 \<or> m = 6 \<or> m = 9 \<or> m = 11 then 30
      else 31)"

definition invalid_isoformat :: "string \<Rightarrow> py_exn" where
  "invalid_isoformat s = PyExn ValueError (''Invalid isoformat string: '' @ quoted s)"

definition fromisoformat :: "string \<Rightarrow> py_exn + date" where
  "fromisoformat s =
     (if length s = 10 \<and> s ! 4 = CHR ''-'' \<and> s ! 7 = CHR ''-'' then
        (case (digits_value 0 (take 4 s), digits_value 0 (take 2 (drop 5 s)),
               digits_value 0 (drop 8 s)) of
           (Some y, Some m, Some d) \<Rightarrow>
             (if y = 0 then Inl (PyExn ValueError ''year 0 is out of range'')
              else if m = 0 \<or> 12 < m then Inl (PyExn ValueError ''month must be in 1..12'')
              else if d = 0 \<or> days_in_month y m < d
              then Inl (PyExn ValueError ''day is out of range for month'')
              else Inr (y, m, d))
         | _ \<Rightarrow> Inl (invalid_isoformat s))
      else Inl (invalid_isoformat s))"

section \<open>Link patterns (lines 273 and 276)\<close>

text \<open>
  The fragment of Python's regular expressions the two patterns use: a literal text, an
  optional item \<^verbatim>\<open>r?\<close>, one or more characters other than a given one
  \<^verbatim>\<open>[^c]+\<close>, and a capturing group. \<open>rx_seq rs s\<close> lists, in the order in which
  the backtracking matcher tries them, the ways of matching \<open>rs\<close> against a prefix of
  \<open>s\<close>: the text of every group and the unread rest. Greedy items offer the longest
  match first. \<^verbatim>\<open>re.match\<close> anchors at the start only and returns the first way.
\<close>

datatype rx =
    Lit string
  | Opt rx
  | PlusNot char
  | Group "rx list"

fun rx_match :: "rx \<Rightarrow> string \<Rightarrow> (string list \<times> string) list"
  and rx_seq :: "rx list \<Rightarrow> string \<Rightarrow> (string list \<times> string) list" where
  "rx_match (Lit l) s = (if take (length l) s = l then [([], drop (length l) s)] else [])"
| "rx_match (Opt r) s = rx_match r s @ [([], s)]"
| "rx_match (PlusNot c) s =
     map (\<lambda>k. ([], drop k s)) (rev [1 ..< Suc (length (takeWhile (\<lambda>x. x \<noteq> c) s))])"
| "rx_match (Group rs) s =
     map (\<lambda>m. (take (length s - length (snd m)) s # fst m, snd m)) (rx_seq rs s)"
| "rx_seq [] s = [([], s)]"
| "rx_seq (r # rs) s =
     concat (map (\<lambda>m. map (\<lambda>m'. (fst m @ fst m', snd m')) (rx_seq rs (snd m))) (rx_match r s))"

definition re_match :: "rx list \<Rightarrow> string \<Rightarrow> string list option" where
  "re_match pattern s =
     (case rx_seq pattern s of
        [] \<Rightarrow> None
      | m # _ \<Rightarrow> Some (fst m))"

text \<open>\<^verbatim>\<open>https?://bsky\.app/profile/(did:[^/]+)/post/([^/]+)\<close>\<close>

definition did_in_profile_pattern :: "rx list" where
  "did_in_profile_pattern =
     [Lit ''http'', Opt (Lit ''s''), Lit ''://bsky.app/profile/'',
      Group [Lit ''did:'', PlusNot (CHR ''/'')], Lit ''/post/'', Group [PlusNot (CHR ''/'')]]"

text \<open>\<^verbatim>\<open>https?://bsky\.app/profile/([^/]+)/post/([^/]+)\<close>\<close>

definition web_pattern :: "rx list" where
  "web_pattern =
     [Lit ''http'', Opt (Lit ''s''), Lit ''://bsky.app/profile/'',
      Group [PlusNot (CHR ''/'')], Lit ''/post/'', Group [PlusNot (CHR ''/'')]]"

text \<open>\<^verbatim>\<open>a, b = m.groups()\<close>\<close>

definition unpack2 :: "string list \<Rightarrow> py_exn + (string \<times> string)" where
  "unpack2 gs =
     (case gs of
        [a, b] \<Rightarrow> Inr (a, b)
      | _ \<Rightarrow>
          Inl (PyExn ValueError
            (if length gs < 2 then ''not enough values to unpack''
             else ''too many values to unpack'')))"

text \<open>
  \<^verbatim>\<open>s.strip()\<close>: the white space among the code points below 256 is 9-13, 28-32,
  133 and 160.
\<close>

definition is_space :: "char \<Rightarrow> bool" where
  "is_space c =
     (let n = (of_char c :: nat)
      in (9 \<le> n \<and> n \<le> 13) \<or> (28 \<le> n \<and> n \<le> 32) \<or> n = 133 \<or> n = 160)"

definition strip :: "string \<Rightarrow> string" where
  "strip s = rev (dropWhile is_space (rev (dropWhile is_space s)))"

definition py_strip :: "json \<Rightarrow> py_exn + string" where
  "py_strip v =
     (case v of
        JStr s \<Rightarrow> Inr (strip s)
      | _ \<Rightarrow> Inl (no_attribute v ''strip''))"

section \<open>The remote API, the renderer and the process state\<close>

text \<open>
  What \<^verbatim>\<open>requests.get\<close> and \<^verbatim>\<open>requests.post\<close> give: an exception, or a
  response with its status code, what \<^verbatim>\<open>response.json()\<close> gives, and the text of the
  \<^verbatim>\<open>HTTPError\<close> that \<^verbatim>\<open>raise_for_status\<close> builds for it.
\<close>

record http_response =
  status_code :: nat
  json_result :: "py_exn + json"
  http_error :: string

definition raise_for_status :: "http_response \<Rightarrow> py_exn + unit" where
  "raise_for_status r =
     (if 400 \<le> status_code r \<and> status_code r < 600
      then Inl (PyExn RequestException (http_error r))
      else Inr ())"

record 'd chart =
  colors :: "string list"
  title :: string
  xlabel :: string
  ylabel :: string
  dates :: "'d list"
  counts :: "nat list"
  chart_image_path :: string

text \<open>
  Everything outside the program: the configured account, the five remote endpoints (by
  the credential and the parameter they are called with), the date parser, the plotting
  library (the exception it raises, if any, while a chart is drawn and saved), and the
  interpreter's \<^verbatim>\<open>str\<close> of lists and dictionaries.
\<close>

record 'd env =
  USERNAME :: json
  PASSWORD :: json
  createSession :: "json \<Rightarrow> json \<Rightarrow> py_exn + http_response"
  resolveHandle :: "json \<Rightarrow> string \<Rightarrow> py_exn + http_response"
  getProfile :: "json \<Rightarrow> string \<Rightarrow> py_exn + http_response"
  getRepostedBy :: "json \<Rightarrow> string \<Rightarrow> py_exn + http_response"
  getLikes :: "json \<Rightarrow> string \<Rightarrow> py_exn + http_response"
  fromiso :: "string \<Rightarrow> py_exn + 'd"
  render :: "'d chart \<Rightarrow> py_exn option"
  repr_container :: "json \<Rightarrow> string"

datatype level = INFO | ERROR

text \<open>
  What a run does to the outside, in order: log lines, remote calls (an authenticated call
  with the credential of its \<^verbatim>\<open>Authorization\<close> header) and charts drawn.
\<close>

datatype 'd event =
    Log level string
  | CreateSession json json
  | ResolveHandle json string
  | GetProfile json string
  | GetRepostedBy json string
  | GetLikes json string
  | RenderChart "'d chart"

record 'd state =
  access_token :: json
  trace :: "'d event list"

text \<open>\<^verbatim>\<open>str(x)\<close>, as an f-string formats a value.\<close>

fun show_nat :: "nat \<Rightarrow> string" where
  "show_nat n =
     (if n < 10 then [''0123456789'' ! n]
      else show_nat (n div 10) @ [''0123456789'' ! (n mod 10)])"

definition show_int :: "int \<Rightarrow> string" where
  "show_int i = (if i < 0 then ''-'' @ show_nat (nat (- i)) else show_nat (nat i))"

definition py_str :: "'d env \<Rightarrow> json \<Rightarrow> string" where
  "py_str env v =
     (case v of
        JNull \<Rightarrow> ''None''
      | JBool b \<Rightarrow> (if b then ''True'' else ''False'')
      | JInt i \<Rightarrow> show_int i
      | JStr s \<Rightarrow> s
      | _ \<Rightarrow> repr_container env v)"

subsection \<open>Programs: state, trace and exceptions\<close>

type_synonym ('d, 'a) prog = "'d state \<Rightarrow> (py_exn + 'a) \<times> 'd state"

definition ret :: "'a \<Rightarrow> ('d, 'a) prog" where
  "ret x = (\<lambda>s. (Inr x, s))"

definition raise :: "py_exn \<Rightarrow> ('d, 'a) prog" where
  "raise e = (\<lambda>s. (Inl e, s))"

definition bind :: "('d, 'a) prog \<Rightarrow> ('a \<Rightarrow> ('d, 'b) prog) \<Rightarrow> ('d, 'b) prog" where
  "bind m f =
     (\<lambda>s. case m s of
             (Inl e, s') \<Rightarrow> (Inl e, s')
           | (Inr x, s') \<Rightarrow> f x s')"

definition lift :: "py_exn + 'a \<Rightarrow> ('d, 'a) prog" where
  "lift r = (case r of Inl e \<Rightarrow> raise e | Inr x \<Rightarrow> ret x)"

definition emit :: "'d event \<Rightarrow> ('d, unit) prog" where
  "emit ev = (\<lambda>s. (Inr (), s\<lparr>trace := trace s @ [ev]\<rparr>))"

definition logging :: "level \<Rightarrow> string \<Rightarrow> ('d, unit) prog" where
  "logging lvl msg = emit (Log lvl msg)"

definition get_token :: "('d, json) prog" where
  "get_token = (\<lambda>s. (Inr (access_token s), s))"

definition set_token :: "json \<Rightarrow> ('d, unit) prog" where
  "set_token t = (\<lambda>s. (Inr (), s\<lparr>access_token := t\<rparr>))"

text \<open>\<^verbatim>\<open>try: m  except requests.exceptions.RequestException as e: h(e)\<close>\<close>

definition except_RequestException ::
  "('d, 'a) prog \<Rightarrow> (py_exn \<Rightarrow> ('d, 'a) prog) \<Rightarrow> ('d, 'a) prog" where
  "except_RequestException m h =
     (\<lambda>s. case m s of
             (Inl e, s') \<Rightarrow> (if exn_cls e = RequestException then h e s' else (Inl e, s'))
           | (Inr x, s') \<Rightarrow> (Inr x, s'))"

section \<open>The program\<close>

text \<open>Lines 26-43.\<close>

definition get_access_token :: "'d env \<Rightarrow> ('d, unit) prog" where
  "get_access_token env =
     except_RequestException
       (bind (logging INFO ''Attempting to log into Bluesky...'') (\<lambda>_.
        bind (emit (CreateSession (USERNAME env) (PASSWORD env))) (\<lambda>_.
        bind (lift (createSession env (USERNAME env) (PASSWORD env))) (\<lambda>response.
        bind (lift (raise_for_status response)) (\<lambda>_.
        bind (lift (json_result response)) (\<lambda>data.
        bind (lift (py_get data ''accessJwt'' JNull)) (\<lambda>tok.
        bind (set_token tok) (\<lambda>_.
        if \<not> truthy tok then raise (PyExn ValueError ''Access token not retrieved.'')
        else logging INFO ''Login successful. Access token retrieved.''))))))))
       (\<lambda>e.
        bind (logging ERROR (''Error during Bluesky authentication: '' @ exn_str e)) (\<lambda>_.
        raise (PyExn PlainException ''Authentication failed. Check your username and password.'')))"

text \<open>Lines 46-68.\<close>

definition resolve_did :: "'d env \<Rightarrow> string \<Rightarrow> ('d, json) prog" where
  "resolve_did env handle =
     bind get_token (\<lambda>tok.
     except_RequestException
       (bind (logging INFO (''Resolving DID for handle: '' @ handle)) (\<lambda>_.
        bind (emit (ResolveHandle tok handle)) (\<lambda>_.
        bind (lift (resolveHandle env tok handle)) (\<lambda>response.
        bind (lift (raise_for_status response)) (\<lambda>_.
        bind (lift (json_result response)) (\<lambda>data.
        bind (lift (py_get data ''did'' JNull)) (\<lambda>did.
        if truthy did then
          bind (logging INFO (''Resolved DID for '' @ handle @ '': '' @ py_str env did)) (\<lambda>_.
          ret did)
        else
          bind (logging ERROR (''Failed to resolve DID for handle: '' @ handle)) (\<lambda>_.
          ret JNull))))))))
       (\<lambda>e.
        bind (logging ERROR (''Error resolving DID for handle '' @ handle @ '': '' @ exn_str e)) (\<lambda>_.
        ret JNull)))"

text \<open>
  Lines 71-82. The parameter \<^verbatim>\<open>api_url\<close> is always the one remote API, whose
  endpoints \<open>env\<close> holds.
\<close>

definition fetch_username_from_did :: "'d env \<Rightarrow> json \<Rightarrow> string \<Rightarrow> ('d, json) prog" where
  "fetch_username_from_did env tok did =
     except_RequestException
       (bind (emit (GetProfile tok did)) (\<lambda>_.
        bind (lift (getProfile env tok did)) (\<lambda>response.
        bind (lift (raise_for_status response)) (\<lambda>_.
        bind (lift (json_result response)) (\<lambda>data.
        bind (lift (py_get data ''handle'' JNull)) (\<lambda>handle.
        bind (logging INFO (''Resolved handle for DID '' @ did @ '': '' @ py_str env handle)) (\<lambda>_.
        ret handle)))))))
       (\<lambda>e.
        bind (logging ERROR (''Error fetching username for DID '' @ did @ '': '' @ exn_str e)) (\<lambda>_.
        ret JNull))"

text \<open>Lines 85-98.\<close>

definition generate_chart :: "'d env \<Rightarrow> 'd chart \<Rightarrow> ('d, unit) prog" where
  "generate_chart env c =
     bind (emit (RenderChart c)) (\<lambda>_.
     (case render env c of
        Some e \<Rightarrow> raise e
      | None \<Rightarrow> logging INFO (''Chart saved to '' @ chart_image_path c)))"

text \<open>Lines 101-123.\<close>

definition generate_likes_chart ::
  "('d::linorder) env \<Rightarrow> json \<Rightarrow> json list \<Rightarrow> string \<Rightarrow> ('d, string) prog" where
  "generate_likes_chart env handle like_timestamps post_link =
     bind (logging INFO ''Generating likes chart...'') (\<lambda>_.
     bind (lift (daily_buckets (fromiso env) like_timestamps)) (\<lambda>buckets.
     bind (generate_chart env
             \<lparr>colors = map (\<lambda>_. ''#ff69b4'') (fst buckets),
              title = ''Likes Over Time for @'' @ py_str env handle @ [CHR 0x0A] @
                      ''Post: '' @ post_link,
              xlabel = ''Date'',
              ylabel = ''Number of Likes'',
              dates = fst buckets,
              counts = snd buckets,
              chart_image_path = ''static/likes_chart.png''\<rparr>) (\<lambda>_.
     ret ''static/likes_chart.png'')))"

text \<open>
  \<^verbatim>\<open>[x["indexedAt"] for x in items if "indexedAt" in x]\<close> (lines 132 and 304): the
  items are read in order and the first one that fails raises.
\<close>

fun indexed_at_items :: "json list \<Rightarrow> py_exn + json list" where
  "indexed_at_items [] = Inr []"
| "indexed_at_items (x # xs) =
     (case py_contains ''indexedAt'' x of
        Inl e \<Rightarrow> Inl e
      | Inr has \<Rightarrow>
          (if has then
             (case py_index x ''indexedAt'' of
                Inl e \<Rightarrow> Inl e
              | Inr v \<Rightarrow>
                  (case indexed_at_items xs of
                     Inl e \<Rightarrow> Inl e
                   | Inr vs \<Rightarrow> Inr (v # vs)))
           else indexed_at_items xs))"

definition indexed_at :: "json \<Rightarrow> py_exn + json list" where
  "indexed_at coll =
     (case py_iter coll of
        Inl e \<Rightarrow> Inl e
      | Inr items \<Rightarrow> indexed_at_items items)"

text \<open>Lines 126-149.\<close>

definition generate_reposts_chart :: "('d::linorder) env \<Rightarrow> json \<Rightarrow> json \<Rightarrow> ('d, string) prog" where
  "generate_reposts_chart env handle reposts =
     bind (logging INFO ''Generating reposts chart...'') (\<lambda>_.
     bind (lift (indexed_at reposts)) (\<lambda>repost_timestamps.
     bind (lift (daily_buckets (fromiso env) repost_timestamps)) (\<lambda>buckets.
     bind (generate_chart env
             \<lparr>colors = map (\<lambda>_. ''#ff85c0'') (fst buckets),
              title = ''Reposts Over Time for @'' @ py_str env handle,
              xlabel = ''Date'',
              ylabel = ''Number of Reposts'',
              dates = fst buckets,
              counts = snd buckets,
              chart_image_path = ''static/reposts_chart.png''\<rparr>) (\<lambda>_.
     ret ''static/reposts_chart.png''))))"

subsection \<open>The endpoint \<^verbatim>\<open>/generate\<close> (lines 256-317)\<close>

text \<open>\<^verbatim>\<open>jsonify(body), status\<close>: the JSON object of the body and the HTTP status.\<close>

record response =
  body :: "(string \<times> json) list"
  status :: nat

definition error_response :: "string \<Rightarrow> nat \<Rightarrow> response" where
  "error_response msg code = \<lparr>body = [(''error'', JStr msg)], status = code\<rparr>"

text \<open>Lines 261-262.\<close>

definition auth_check :: "'d env \<Rightarrow> ('d, unit) prog" where
  "auth_check env =
     bind get_token (\<lambda>tok.
     if \<not> truthy tok then get_access_token env else ret ())"

text \<open>
  Lines 264-270: the link of the request, or the response of the early return.
  \<open>request_json\<close> is what \<^verbatim>\<open>request.json\<close> gives.
\<close>

definition no_link_provided :: "('d, response + string) prog" where
  "no_link_provided =
     bind (logging ERROR ''No link provided in the request.'') (\<lambda>_.
     ret (Inl (error_response ''No link provided'' 400)))"

definition read_link :: "py_exn + json \<Rightarrow> ('d, response + string) prog" where
  "read_link request_json =
     bind (lift request_json) (\<lambda>data.
     if \<not> truthy data then no_link_provided
     else
       bind (lift (py_contains ''link'' data)) (\<lambda>has_link.
       if \<not> has_link then no_link_provided
       else
         bind (lift (py_index data ''link'')) (\<lambda>v.
         bind (lift (py_strip v)) (\<lambda>link.
         bind (logging INFO (''Received link: '' @ link)) (\<lambda>_.
         ret (Inr link))))))"

text \<open>
  Lines 273-285: the actor identifier, the handle and the post id, or the response of the
  early return.
\<close>

definition resolve_link ::
  "'d env \<Rightarrow> string \<Rightarrow> ('d, response + (json \<times> json \<times> string)) prog" where
  "resolve_link env link =
     (let did_in_profile_match = re_match did_in_profile_pattern link;
          web_match = re_match web_pattern link
      in case did_in_profile_match of
           Some gs \<Rightarrow>
             bind (lift (unpack2 gs)) (\<lambda>g.
             bind get_token (\<lambda>tok.
             bind (fetch_username_from_did env tok (fst g)) (\<lambda>handle.
             ret (Inr (JStr (fst g), handle, snd g)))))
         | None \<Rightarrow>
             (case web_match of
                Some gs \<Rightarrow>
                  bind (lift (unpack2 gs)) (\<lambda>g.
                  bind (resolve_did env (fst g)) (\<lambda>did.
                  ret (Inr (did, JStr (fst g), snd g))))
              | None \<Rightarrow> ret (Inl (error_response ''Invalid link format.'' 400))))"

text \<open>
  Lines 291-294 and 297-300, after the call: the collection of one kind read from what
  the endpoint gave.
\<close>

definition collection_of :: "http_response \<Rightarrow> string \<Rightarrow> py_exn + json" where
  "collection_of r key =
     (if status_code r = 200 then
        (case json_result r of
           Inl e \<Rightarrow> Inl e
         | Inr d \<Rightarrow> py_get d key (JArr []))
      else Inr (JArr []))"

definition at_uri_of :: "'d env \<Rightarrow> json \<Rightarrow> string \<Rightarrow> string" where
  "at_uri_of env did post_id = ''at://'' @ py_str env did @ ''/app.bsky.feed.post/'' @ post_id"

text \<open>Lines 308-314.\<close>

definition chart_response :: "string option \<Rightarrow> string option \<Rightarrow> response" where
  "chart_response likes_chart_path reposts_chart_path =
     \<lparr>body =
        (case likes_chart_path of
           Some p \<Rightarrow> (if p \<noteq> [] then [(''likes_chart'', JStr p)] else [])
         | None \<Rightarrow> []) @
        (case reposts_chart_path of
           Some p \<Rightarrow> (if p \<noteq> [] then [(''reposts_chart'', JStr p)] else [])
         | None \<Rightarrow> []),
      status = 200\<rparr>"

text \<open>
  Lines 287-300: the two engagement fetches, reposts first. The result is the pair
  (reposts, likes).
\<close>

definition fetch_engagement :: "'d env \<Rightarrow> json \<Rightarrow> string \<Rightarrow> ('d, json \<times> json) prog" where
  "fetch_engagement env did post_id =
     bind get_token (\<lambda>tok.
     bind (emit (GetRepostedBy tok (at_uri_of env did post_id))) (\<lambda>_.
     bind (lift (getRepostedBy env tok (at_uri_of env did post_id))) (\<lambda>reposts_response.
     bind (lift (collection_of reposts_response ''repostedBy'')) (\<lambda>reposts.
     bind (emit (GetLikes tok (at_uri_of env did post_id))) (\<lambda>_.
     bind (lift (getLikes env tok (at_uri_of env did post_id))) (\<lambda>likes_response.
     bind (lift (collection_of likes_response ''likes'')) (\<lambda>likes.
     ret (reposts, likes))))))))"

text \<open>Lines 303-314.\<close>

definition render_charts ::
  "('d::linorder) env \<Rightarrow> json \<Rightarrow> string \<Rightarrow> json \<Rightarrow> json \<Rightarrow> ('d, response) prog" where
  "render_charts env handle post_id reposts likes =
     bind (lift (indexed_at likes)) (\<lambda>likes_timestamps.
     bind (if truthy likes then
             bind (generate_likes_chart env handle likes_timestamps
                     (''https://bsky.app/profile/'' @ py_str env handle @ ''/post/'' @ post_id))
               (\<lambda>p. ret (Some p))
           else ret None) (\<lambda>likes_chart_path.
     bind (if truthy reposts then
             bind (generate_reposts_chart env handle reposts) (\<lambda>p. ret (Some p))
           else ret None) (\<lambda>reposts_chart_path.
     ret (chart_response likes_chart_path reposts_chart_path))))"

text \<open>The body of the \<^verbatim>\<open>try\<close> (lines 261-314).\<close>

definition generate_charts_try ::
  "('d::linorder) env \<Rightarrow> py_exn + json \<Rightarrow> ('d, response) prog" where
  "generate_charts_try env request_json =
     bind (auth_check env) (\<lambda>_.
     bind (read_link request_json) (\<lambda>l.
     case l of
       Inl early \<Rightarrow> ret early
     | Inr link \<Rightarrow>
         bind (resolve_link env link) (\<lambda>r.
         case r of
           Inl early \<Rightarrow> ret early
         | Inr (did, handle, post_id) \<Rightarrow>
             bind (fetch_engagement env did post_id) (\<lambda>c.
             render_charts env handle post_id (fst c) (snd c)))))"

text \<open>
  Lines 256-317: one request, served with the credential \<open>tok\<close> cached by the process
  (\<^verbatim>\<open>None\<close> when there is none). The result is the response, the credential cached
  afterwards and what the run did. Every \<^verbatim>\<open>Exception\<close> of the body is caught.
\<close>

definition generate_charts ::
  "('d::linorder) env \<Rightarrow> py_exn + json \<Rightarrow> json \<Rightarrow> response \<times> json \<times> 'd event list" where
  "generate_charts env request_json tok =
     (case generate_charts_try env request_json \<lparr>access_token = tok, trace = []\<rparr> of
        (Inr resp, s) \<Rightarrow> (resp, access_token s, trace s)
      | (Inl e, s) \<Rightarrow>
          (error_response (''Error generating charts: '' @ exn_str e) 500,
           access_token s,
           trace s @ [Log ERROR (''Error generating charts: '' @ exn_str e)]))"

section \<open>Vocabulary of the properties\<close>

text \<open>The kinds of events a property speaks of.\<close>

fun is_fetch :: "'d event \<Rightarrow> bool" where
  "is_fetch (GetRepostedBy t u) = True"
| "is_fetch (GetLikes t u) = True"
| "is_fetch _ = False"

fun is_create_session :: "'d event \<Rightarrow> bool" where
  "is_create_session (CreateSession u p) = True"
| "is_create_session _ = False"

fun is_log :: "'d event \<Rightarrow> bool" where
  "is_log (Log l m) = True"
| "is_log _ = False"

text \<open>
  \<open>emits P m\<close>: whatever the state, \<open>m\<close> only adds events to the trace, all of them
  satisfying \<open>P\<close>. \<open>keeps_token m\<close>: \<open>m\<close> leaves the cached credential as it is.
\<close>

definition emits :: "('d event \<Rightarrow> bool) \<Rightarrow> ('d, 'a) prog \<Rightarrow> bool" where
  "emits P m = (\<forall>s. \<exists>evs. trace (snd (m s)) = trace s @ evs \<and> list_all P evs)"

definition keeps_token :: "('d, 'a) prog \<Rightarrow> bool" where
  "keeps_token m = (\<forall>s. access_token (snd (m s)) = access_token s)"

text \<open>
  The two patterns read deterministically: the text after the scheme, the host and
  \<^verbatim>\<open>/profile/\<close>, and in it the profile segment and the post id.
\<close>

definition after_profile :: "string \<Rightarrow> string option" where
  "after_profile s =
     (if take 25 s = ''https://bsky.app/profile/'' then Some (drop 25 s)
      else if take 24 s = ''http://bsky.app/profile/'' then Some (drop 24 s)
      else None)"

definition path_parts :: "string \<Rightarrow> (string \<times> string) option" where
  "path_parts t =
     (let p = takeWhile (\<lambda>x. x \<noteq> CHR ''/'') t;
          r = dropWhile (\<lambda>x. x \<noteq> CHR ''/'') t;
          i = takeWhile (\<lambda>x. x \<noteq> CHR ''/'') (drop 6 r)
      in if p \<noteq> [] \<and> take 6 r = ''/post/'' \<and> i \<noteq> [] then Some (p, i) else None)"

section \<open>Sample worlds\<close>

text \<open>
  A remote API that answers every call with success, for the account
  \<^verbatim>\<open>alice.bsky.social\<close> and a post with three likes and one repost; a renderer
  that succeeds. The variants below change one endpoint at a time.
\<close>

definition ok_response :: "json \<Rightarrow> http_response" where
  "ok_response j = \<lparr>status_code = 200, json_result = Inr j, http_error = ''''\<rparr>"

definition failed_response :: "nat \<Rightarrow> string \<Rightarrow> http_response" where
  "failed_response code msg =
     \<lparr>status_code = code, json_result = Inr (JObj [(''error'', JStr ''Failed'')]), http_error = msg\<rparr>"

definition sample_likes :: json where
  "sample_likes =
     JArr [JObj [(''indexedAt'', JStr ''2024-01-01T10:00:00Z'')],
           JObj [(''indexedAt'', JStr ''2024-01-01T23:00:00Z'')],
           JObj [(''indexedAt'', JStr ''2024-01-02T00:00:01Z'')]]"

definition sample_reposts :: json where
  "sample_reposts =
     JArr [JObj [(''handle'', JStr ''bob.bsky.social''),
                 (''indexedAt'', JStr ''2024-01-02T08:30:00Z'')]]"

definition sample_env :: "date env" where
  "sample_env =
     \<lparr>USERNAME = JStr ''viewer.bsky.social'',
      PASSWORD = JStr ''app-password'',
      createSession = (\<lambda>u p. Inr (ok_response (JObj [(''accessJwt'', JStr ''jwt-1'')]))),
      resolveHandle = (\<lambda>t h. Inr (ok_response (JObj [(''did'', JStr ''did:plc:alice'')]))),
      getProfile = (\<lambda>t d. Inr (ok_response (JObj [(''handle'', JStr ''alice.bsky.social'')]))),
      getRepostedBy = (\<lambda>t u. Inr (ok_response (JObj [(''repostedBy'', sample_reposts)]))),
      getLikes = (\<lambda>t u. Inr (ok_response (JObj [(''likes'', sample_likes)]))),
      fromiso = fromisoformat,
      render = (\<lambda>c. None),
      repr_container = (\<lambda>v. ''[...]'')\<rparr>"

definition request_with_link :: "string \<Rightarrow> py_exn + json" where
  "request_with_link link = Inr (JObj [(''link'', JStr link)])"

section \<open>Properties of the aggregation\<close>
















lemma date_of_ex1: "date_of fromisoformat (JStr ''2024-01-01T10:00:00Z'') = Inr (2024, 1, 1)"
  by (simp add: date_of_def py_split_def py_first_def fromisoformat_def digit_of_def days_in_month_def is_leap_def)

lemma date_of_ex2: "date_of fromisoformat (JStr ''2024-01-01T23:00:00Z'') = Inr (2024, 1, 1)"
  by (simp add: date_of_def py_split_def py_first_def fromisoformat_def digit_of_def days_in_month_def is_leap_def)

lemma date_of_ex3: "date_of fromisoformat (JStr ''2024-01-02T00:00:01Z'') = Inr (2024, 1, 2)"
  by (simp add: date_of_def py_split_def py_first_def fromisoformat_def digit_of_def days_in_month_def is_leap_def)

text \<open>
  Claim C1. The three timestamps of the specification give exactly the two buckets
  (2024-01-01, 2) and (2024-01-02, 1), in ascending order and with no day in between.
\<close>

theorem daily_buckets_example:
  "daily_buckets fromisoformat
     [JStr ''2024-01-01T10:00:00Z'', JStr ''2024-01-01T23:00:00Z'', JStr ''2024-01-02T00:00:01Z'']
   = Inr ([(2024, 1, 1), (2024, 1, 2)], [2, 1])"
  by (simp add: daily_buckets_def date_of_ex1 date_of_ex2 date_of_ex3 Counter_def counter_keys_def
      counter_get_def Let_def)

section \<open>The link patterns\<close>

lemma rx_seq_Lit:
  "rx_seq (Lit l # rs) s = (if take (length l) s = l then rx_seq rs (drop (length l) s) else [])"
  by simp

lemma rx_seq_Opt_Lit:
  "rx_seq (Opt (Lit l) # rs) s =
     (if take (length l) s = l then rx_seq rs (drop (length l) s) else []) @ rx_seq rs s"
  by simp

lemma concat_map_single:
  assumes "\<And>k. k \<in> set ks \<Longrightarrow> f k = []"
  shows "concat (map f (n # ks)) = f n"
  using assms by (induction ks) auto

lemma drop_lt_takeWhile:
  assumes "k < length (takeWhile (\<lambda>x. x \<noteq> c) s)"
  shows "take (Suc n) (drop k s) \<noteq> c # l"
proof -
  have "k < length s" using assms length_takeWhile_le [of "\<lambda>x. x \<noteq> c" s] by linarith
  then have "drop k s = s ! k # drop (Suc k) s" by (simp add: Cons_nth_drop_Suc)
  moreover have "s ! k \<noteq> c"
    using assms takeWhile_nth by (metis (mono_tags, lifting) nth_mem set_takeWhileD)
  ultimately show ?thesis by simp
qed

lemma rx_seq_PlusNot:
  "rx_seq (PlusNot c # rs) s =
     concat (map (\<lambda>k. rx_seq rs (drop k s)) (rev [1 ..< Suc (length (takeWhile (\<lambda>x. x \<noteq> c) s))]))"
  by (simp add: comp_def del: upt_Suc)

lemma rx_seq_PlusNot_Lit:
  "rx_seq (PlusNot c # Lit (c # l) # rs) s =
     (if takeWhile (\<lambda>x. x \<noteq> c) s = [] then []
      else rx_seq (Lit (c # l) # rs) (dropWhile (\<lambda>x. x \<noteq> c) s))"
proof -
  let ?n = "length (takeWhile (\<lambda>x. x \<noteq> c) s)"
  let ?R = "Lit (c # l) # rs"
  let ?f = "\<lambda>k. rx_seq ?R (drop k s)"
  have eq: "rx_seq (PlusNot c # ?R) s = concat (map ?f (rev [1 ..< Suc ?n]))"
    by (rule rx_seq_PlusNot)
  show ?thesis
  proof (cases "?n = 0")
    case True
    then have "rx_seq (PlusNot c # ?R) s = []"
      unfolding eq by (simp del: rx_seq.simps rx_match.simps)
    moreover have "takeWhile (\<lambda>x. x \<noteq> c) s = []" using True by simp
    ultimately show ?thesis by (simp del: rx_seq.simps rx_match.simps)
  next
    case False
    then have r: "rev [1 ..< Suc ?n] = ?n # rev [1 ..< ?n]" by (simp add: Suc_le_eq)
    have z: "\<And>k. k \<in> set (rev [1 ..< ?n]) \<Longrightarrow> ?f k = []"
      using drop_lt_takeWhile [of _ c s "length l" l] by simp
    have d: "drop ?n s = dropWhile (\<lambda>x. x \<noteq> c) s"
      by (rule dropWhile_eq_drop [symmetric])
    have "rx_seq (PlusNot c # ?R) s = ?f ?n"
      unfolding eq r using z by (rule concat_map_single)
    also have "\<dots> = rx_seq ?R (dropWhile (\<lambda>x. x \<noteq> c) s)"
      by (simp only: d)
    finally have "rx_seq (PlusNot c # ?R) s = rx_seq ?R (dropWhile (\<lambda>x. x \<noteq> c) s)" .
    moreover have "takeWhile (\<lambda>x. x \<noteq> c) s \<noteq> []" using False by simp
    ultimately show ?thesis by (simp del: rx_seq.simps rx_match.simps)
  qed
qed

lemma rx_match_Group_PlusNot:
  "rx_match (Group [PlusNot c]) s =
     map (\<lambda>k. ([take k s], drop k s)) (rev [1 ..< Suc (length (takeWhile (\<lambda>x. x \<noteq> c) s))])"
proof -
  have le: "length (takeWhile (\<lambda>x. x \<noteq> c) s) \<le> length s" by (rule length_takeWhile_le)
  then show ?thesis by (simp add: comp_def min_def del: upt_Suc)
qed

lemma rx_seq_Group_PlusNot_Lit:
  "rx_seq (Group [PlusNot c] # Lit (c # l) # rs) s =
     (if takeWhile (\<lambda>x. x \<noteq> c) s = [] then []
      else map (\<lambda>m. (takeWhile (\<lambda>x. x \<noteq> c) s # fst m, snd m))
             (rx_seq (Lit (c # l) # rs) (dropWhile (\<lambda>x. x \<noteq> c) s)))"
proof -
  let ?n = "length (takeWhile (\<lambda>x. x \<noteq> c) s)"
  let ?R = "Lit (c # l) # rs"
  let ?f = "\<lambda>k. map (\<lambda>m. (take k s # fst m, snd m)) (rx_seq ?R (drop k s))"
  have eq: "rx_seq (Group [PlusNot c] # ?R) s = concat (map ?f (rev [1 ..< Suc ?n]))"
    unfolding rx_seq.simps(2) [of "Group [PlusNot c]"] rx_match_Group_PlusNot
    by (simp add: comp_def del: upt_Suc rx_seq.simps rx_match.simps)
  show ?thesis
  proof (cases "?n = 0")
    case True
    then have "rx_seq (Group [PlusNot c] # ?R) s = []"
      unfolding eq by (simp del: rx_seq.simps rx_match.simps)
    moreover have "takeWhile (\<lambda>x. x \<noteq> c) s = []" using True by simp
    ultimately show ?thesis by (simp del: rx_seq.simps rx_match.simps)
  next
    case False
    then have r: "rev [1 ..< Suc ?n] = ?n # rev [1 ..< ?n]" by (simp add: Suc_le_eq)
    have z: "\<And>k. k \<in> set (rev [1 ..< ?n]) \<Longrightarrow> ?f k = []"
      using drop_lt_takeWhile [of _ c s "length l" l] by simp
    have d: "drop ?n s = dropWhile (\<lambda>x. x \<noteq> c) s"
      by (rule dropWhile_eq_drop [symmetric])
    have t: "take ?n s = takeWhile (\<lambda>x. x \<noteq> c) s"
      by (rule takeWhile_eq_take [symmetric])
    have "rx_seq (Group [PlusNot c] # ?R) s = ?f ?n"
      unfolding eq r using z by (rule concat_map_single)
    also have "\<dots> = map (\<lambda>m. (takeWhile (\<lambda>x. x \<noteq> c) s # fst m, snd m))
             (rx_seq ?R (dropWhile (\<lambda>x. x \<noteq> c) s))"
      by (simp only: d t)
    finally have "rx_seq (Group [PlusNot c] # ?R) s =
        map (\<lambda>m. (takeWhile (\<lambda>x. x \<noteq> c) s # fst m, snd m))
             (rx_seq ?R (dropWhile (\<lambda>x. x \<noteq> c) s))" .
    moreover have "takeWhile (\<lambda>x. x \<noteq> c) s \<noteq> []" using False by simp
    ultimately show ?thesis by (simp del: rx_seq.simps rx_match.simps)
  qed
qed

lemma take_append_eq:
  "take (length a + n) s = a @ b \<longleftrightarrow> take (length a) s = a \<and> take n (drop (length a) s) = b"
proof
  assume h: "take (length a + n) s = a @ b"
  have "take (length a) s = take (length a) (take (length a + n) s)"
    by (simp add: min_def)
  also have "\<dots> = a" by (simp add: h)
  finally have 1: "take (length a) s = a" .
  have "take n (drop (length a) s) = drop (length a) (take (length a + n) s)"
    by (simp add: drop_take)
  also have "\<dots> = b" by (simp add: h)
  finally have 2: "take n (drop (length a) s) = b" .
  from 1 2 show "take (length a) s = a \<and> take n (drop (length a) s) = b" by simp
next
  assume "take (length a) s = a \<and> take n (drop (length a) s) = b"
  then show "take (length a + n) s = a @ b" by (simp add: take_add)
qed

lemma first_map:
  "(case map g xs of [] \<Rightarrow> None | m # _ \<Rightarrow> Some (fst m)) =
   (case xs of [] \<Rightarrow> None | x # _ \<Rightarrow> Some (fst (g x)))"
  by (cases xs) auto

lemma rx_seq_last_Group:
  "rx_seq [Group [PlusNot c]] s =
     map (\<lambda>k. ([take k s], drop k s)) (rev [1 ..< Suc (length (takeWhile (\<lambda>x. x \<noteq> c) s))])"
  unfolding rx_seq.simps(2) [of "Group [PlusNot c]"] rx_match_Group_PlusNot
  by (simp add: comp_def del: upt_Suc rx_match.simps)

lemma rx_match_Group_Lit_PlusNot:
  "rx_match (Group [Lit d, PlusNot c]) (d @ t) =
     map (\<lambda>k. ([d @ take k t], drop k t)) (rev [1 ..< Suc (length (takeWhile (\<lambda>x. x \<noteq> c) t))])"
proof -
  have le: "length (takeWhile (\<lambda>x. x \<noteq> c) t) \<le> length t" by (rule length_takeWhile_le)
  then show ?thesis by (simp add: comp_def min_def del: upt_Suc)
qed

lemma rx_match_Group_Lit_none:
  "take (length d) s \<noteq> d \<Longrightarrow> rx_match (Group [Lit d, PlusNot c]) s = []"
  by simp

lemma rx_seq_Group_Lit_PlusNot_Lit:
  assumes "c \<notin> set d"
  shows "rx_seq (Group [Lit d, PlusNot c] # Lit (c # l) # rs) s =
     (if take (length d) s = d \<and> length d < length (takeWhile (\<lambda>x. x \<noteq> c) s)
      then map (\<lambda>m. (takeWhile (\<lambda>x. x \<noteq> c) s # fst m, snd m))
             (rx_seq (Lit (c # l) # rs) (dropWhile (\<lambda>x. x \<noteq> c) s))
      else [])"
proof (cases "take (length d) s = d")
  case False
  have "rx_seq (Group [Lit d, PlusNot c] # Lit (c # l) # rs) s = []"
    unfolding rx_seq.simps(2) [of "Group [Lit d, PlusNot c]"]
    using rx_match_Group_Lit_none [OF False, of c]
    by (simp del: rx_seq.simps rx_match.simps)
  with False show ?thesis by (simp del: rx_seq.simps rx_match.simps)
next
  case True
  define t where "t = drop (length d) s"
  have s: "s = d @ t" unfolding t_def using True by (metis append_take_drop_id)
  let ?n = "length (takeWhile (\<lambda>x. x \<noteq> c) t)"
  let ?R = "Lit (c # l) # rs"
  let ?f = "\<lambda>k. map (\<lambda>m. ((d @ take k t) # fst m, snd m)) (rx_seq ?R (drop k t))"
  have tw: "takeWhile (\<lambda>x. x \<noteq> c) s = d @ takeWhile (\<lambda>x. x \<noteq> c) t"
    unfolding s by (rule takeWhile_append2) (use assms in auto)
  have dw: "dropWhile (\<lambda>x. x \<noteq> c) s = dropWhile (\<lambda>x. x \<noteq> c) t"
    unfolding s by (rule dropWhile_append2) (use assms in auto)
  have eq: "rx_seq (Group [Lit d, PlusNot c] # ?R) s = concat (map ?f (rev [1 ..< Suc ?n]))"
    unfolding s rx_seq.simps(2) [of "Group [Lit d, PlusNot c]"] rx_match_Group_Lit_PlusNot
    by (simp add: comp_def del: upt_Suc rx_seq.simps rx_match.simps)
  show ?thesis
  proof (cases "?n = 0")
    case True
    then have "rx_seq (Group [Lit d, PlusNot c] # ?R) s = []"
      unfolding eq by (simp del: rx_seq.simps rx_match.simps)
    moreover have "\<not> length d < length (takeWhile (\<lambda>x. x \<noteq> c) s)"
      unfolding tw using True by simp
    ultimately show ?thesis by (simp del: rx_seq.simps rx_match.simps)
  next
    case False
    then have r: "rev [1 ..< Suc ?n] = ?n # rev [1 ..< ?n]" by (simp add: Suc_le_eq)
    have z: "\<And>k. k \<in> set (rev [1 ..< ?n]) \<Longrightarrow> ?f k = []"
      using drop_lt_takeWhile [of _ c t "length l" l] by simp
    have d: "drop ?n t = dropWhile (\<lambda>x. x \<noteq> c) t"
      by (rule dropWhile_eq_drop [symmetric])
    have k: "take ?n t = takeWhile (\<lambda>x. x \<noteq> c) t"
      by (rule takeWhile_eq_take [symmetric])
    have "rx_seq (Group [Lit d, PlusNot c] # ?R) s = ?f ?n"
      unfolding eq r using z by (rule concat_map_single)
    also have "\<dots> = map (\<lambda>m. (takeWhile (\<lambda>x. x \<noteq> c) s # fst m, snd m))
             (rx_seq ?R (dropWhile (\<lambda>x. x \<noteq> c) s))"
      by (simp only: d k tw dw)
    finally have "rx_seq (Group [Lit d, PlusNot c] # ?R) s =
        map (\<lambda>m. (takeWhile (\<lambda>x. x \<noteq> c) s # fst m, snd m))
             (rx_seq ?R (dropWhile (\<lambda>x. x \<noteq> c) s))" .
    moreover have "length d < length (takeWhile (\<lambda>x. x \<noteq> c) s)"
      unfolding tw using False by simp
    ultimately show ?thesis using True by (simp del: rx_seq.simps rx_match.simps)
  qed
qed

lemma first_rev_upt:
  "(case rev [1 ..< Suc n] of [] \<Rightarrow> None | x # _ \<Rightarrow> Some (g x)) =
   (if n = 0 then None else Some (g n))"
  by (cases n) simp_all

lemma rx_seq_Lit_last_Group:
  "rx_seq [Lit l, Group [PlusNot c]] v =
     (if take (length l) v = l
      then map (\<lambda>k. ([take k (drop (length l) v)], drop k (drop (length l) v)))
             (rev [1 ..< Suc (length (takeWhile (\<lambda>x. x \<noteq> c) (drop (length l) v)))])
      else [])"
  unfolding rx_seq_Lit rx_seq_last_Group by (rule refl)

lemma first_post_id:
  "(case rx_seq [Lit l, Group [PlusNot c]] v of [] \<Rightarrow> None | m # _ \<Rightarrow> Some (f m)) =
     (if take (length l) v = l \<and> takeWhile (\<lambda>x. x \<noteq> c) (drop (length l) v) \<noteq> []
      then Some (f ([takeWhile (\<lambda>x. x \<noteq> c) (drop (length l) v)],
                    dropWhile (\<lambda>x. x \<noteq> c) (drop (length l) v)))
      else None)"
proof -
  let ?u = "drop (length l) v"
  let ?n = "length (takeWhile (\<lambda>x. x \<noteq> c) ?u)"
  let ?g = "\<lambda>k. ([take k ?u], drop k ?u)"
  have m: "\<And>xs. (case map ?g xs of [] \<Rightarrow> None | m # _ \<Rightarrow> Some (f m)) =
      (case xs of [] \<Rightarrow> None | x # _ \<Rightarrow> Some (f (?g x)))"
    by (case_tac xs) auto
  have d: "drop ?n ?u = dropWhile (\<lambda>x. x \<noteq> c) ?u"
    by (rule dropWhile_eq_drop [symmetric])
  have k: "take ?n ?u = takeWhile (\<lambda>x. x \<noteq> c) ?u"
    by (rule takeWhile_eq_take [symmetric])
  show ?thesis
  proof (cases "take (length l) v = l")
    case False
    then show ?thesis unfolding rx_seq_Lit_last_Group by simp
  next
    case True
    have "(case rx_seq [Lit l, Group [PlusNot c]] v of [] \<Rightarrow> None | m # _ \<Rightarrow> Some (f m)) =
        (if ?n = 0 then None else Some (f (?g ?n)))"
      unfolding rx_seq_Lit_last_Group using True by (simp only: if_True m first_rev_upt simp_thms)
    also have "\<dots> = (if takeWhile (\<lambda>x. x \<noteq> c) ?u = [] then None
        else Some (f ([takeWhile (\<lambda>x. x \<noteq> c) ?u], dropWhile (\<lambda>x. x \<noteq> c) ?u)))"
      by (simp only: d k length_0_conv)
    finally show ?thesis using True by simp
  qed
qed

lemma length_post: "length ''/post/'' = 6"
  by simp

lemma first_path_web:
  "(case rx_seq [Group [PlusNot (CHR ''/'')], Lit ''/post/'', Group [PlusNot (CHR ''/'')]] t of
      [] \<Rightarrow> None | m # _ \<Rightarrow> Some (fst m)) =
   map_option (\<lambda>pi. [fst pi, snd pi]) (path_parts t)"
proof -
  let ?p = "takeWhile (\<lambda>x. x \<noteq> CHR ''/'') t"
  let ?r = "dropWhile (\<lambda>x. x \<noteq> CHR ''/'') t"
  have m: "\<And>xs. (case map (\<lambda>m. (?p # fst m, snd m)) xs of [] \<Rightarrow> None | m # _ \<Rightarrow> Some (fst m)) =
      (case xs of [] \<Rightarrow> None | m # _ \<Rightarrow> Some (?p # fst m))"
    by (case_tac xs) auto
  show ?thesis
  proof (cases "?p = []")
    case True
    then show ?thesis
      unfolding rx_seq_Group_PlusNot_Lit by (simp add: path_parts_def del: rx_seq.simps)
  next
    case False
    have "(case rx_seq [Group [PlusNot (CHR ''/'')], Lit ''/post/'', Group [PlusNot (CHR ''/'')]] t of
      [] \<Rightarrow> None | m # _ \<Rightarrow> Some (fst m)) =
      (case rx_seq [Lit ''/post/'', Group [PlusNot (CHR ''/'')]] ?r of
         [] \<Rightarrow> None | m # _ \<Rightarrow> Some (?p # fst m))"
      unfolding rx_seq_Group_PlusNot_Lit using False by (simp only: if_False m simp_thms)
    also have "\<dots> = map_option (\<lambda>pi. [fst pi, snd pi]) (path_parts t)"
      unfolding first_post_id length_post using False by (simp add: path_parts_def Let_def)
    finally show ?thesis .
  qed
qed

lemma first_path_did:
  "(case rx_seq [Group [Lit ''did:'', PlusNot (CHR ''/'')], Lit ''/post/'', Group [PlusNot (CHR ''/'')]] t of
      [] \<Rightarrow> None | m # _ \<Rightarrow> Some (fst m)) =
   (case path_parts t of
      None \<Rightarrow> None
    | Some pi \<Rightarrow>
        (if take 4 (fst pi) = ''did:'' \<and> 4 < length (fst pi) then Some [fst pi, snd pi] else None))"
proof -
  let ?p = "takeWhile (\<lambda>x. x \<noteq> CHR ''/'') t"
  let ?r = "dropWhile (\<lambda>x. x \<noteq> CHR ''/'') t"
  have m: "\<And>xs. (case map (\<lambda>m. (?p # fst m, snd m)) xs of [] \<Rightarrow> None | m # _ \<Rightarrow> Some (fst m)) =
      (case xs of [] \<Rightarrow> None | m # _ \<Rightarrow> Some (?p # fst m))"
    by (case_tac xs) auto
  have nd: "CHR ''/'' \<notin> set ''did:''" by simp
  have ld: "length ''did:'' = 4" by simp
  have pre: "4 < length ?p \<Longrightarrow> take 4 ?p = take 4 t"
    by (metis (no_types, lifting) less_imp_le_nat min.absorb1 takeWhile_eq_take take_take)
  show ?thesis
  proof (cases "take 4 t = ''did:'' \<and> 4 < length ?p")
    case False
    then have c: "\<not> (take 4 ?p = ''did:'' \<and> 4 < length ?p)" using pre by auto
    have "rx_seq [Group [Lit ''did:'', PlusNot (CHR ''/'')], Lit ''/post/'', Group [PlusNot (CHR ''/'')]] t = []"
      unfolding rx_seq_Group_Lit_PlusNot_Lit [OF nd] ld using False by (simp only: if_False simp_thms)
    then show ?thesis using c by (auto simp: path_parts_def Let_def simp del: rx_seq.simps split: option.splits)
  next
    case True
    then have c: "take 4 ?p = ''did:'' \<and> 4 < length ?p" using pre by auto
    then have ne: "?p \<noteq> []" by auto
    have "(case rx_seq [Group [Lit ''did:'', PlusNot (CHR ''/'')], Lit ''/post/'', Group [PlusNot (CHR ''/'')]] t of
      [] \<Rightarrow> None | m # _ \<Rightarrow> Some (fst m)) =
      (case rx_seq [Lit ''/post/'', Group [PlusNot (CHR ''/'')]] ?r of
         [] \<Rightarrow> None | m # _ \<Rightarrow> Some (?p # fst m))"
      unfolding rx_seq_Group_Lit_PlusNot_Lit [OF nd] ld using True by (simp only: if_True m simp_thms)
    also have "\<dots> = (case path_parts t of
      None \<Rightarrow> None
    | Some pi \<Rightarrow>
        (if take 4 (fst pi) = ''did:'' \<and> 4 < length (fst pi) then Some [fst pi, snd pi] else None))"
      unfolding first_post_id length_post using c ne by (simp add: path_parts_def Let_def)
    finally show ?thesis .
  qed
qed

lemma take_append_num:
  "length a = m \<Longrightarrow>
   take (m + n) s = a @ b \<longleftrightarrow> take m s = a \<and> take n (drop m s) = b"
  using take_append_eq [of a n s b] by simp

lemma rx_seq_scheme:
  "rx_seq (Lit ''http'' # Opt (Lit ''s'') # Lit ''://bsky.app/profile/'' # rs) s =
     (case after_profile s of None \<Rightarrow> [] | Some t \<Rightarrow> rx_seq rs t)"
proof -
  let ?X = "Lit ''://bsky.app/profile/'' # rs"
  have l1: "length ''http'' = 4" and l2: "length ''s'' = 1"
    and l3: "length ''://bsky.app/profile/'' = 20" by simp_all
  have A1: "take 25 s = ''https://bsky.app/profile/'' \<longleftrightarrow>
      take 4 s = ''http'' \<and> take 21 (drop 4 s) = ''s://bsky.app/profile/''"
    using take_append_num [of "''http''" 4 21 s "''s://bsky.app/profile/''"] by simp
  have A2: "take 21 (drop 4 s) = ''s://bsky.app/profile/'' \<longleftrightarrow>
      take 1 (drop 4 s) = ''s'' \<and> take 20 (drop 5 s) = ''://bsky.app/profile/''"
    using take_append_num [of "''s''" 1 20 "drop 4 s" "''://bsky.app/profile/''"] by simp
  have A: "take 25 s = ''https://bsky.app/profile/'' \<longleftrightarrow>
      take 4 s = ''http'' \<and> take 1 (drop 4 s) = ''s'' \<and> take 20 (drop 5 s) = ''://bsky.app/profile/''"
    unfolding A1 A2 by (rule refl)
  have B: "take 24 s = ''http://bsky.app/profile/'' \<longleftrightarrow>
      take 4 s = ''http'' \<and> take 20 (drop 4 s) = ''://bsky.app/profile/''"
    using take_append_num [of "''http''" 4 20 s "''://bsky.app/profile/''"] by simp
  have C0: "take 20 (drop 4 s) = ''://bsky.app/profile/'' \<longleftrightarrow>
      take 1 (drop 4 s) = '':'' \<and> take 19 (drop 5 s) = ''//bsky.app/profile/''"
    using take_append_num [of "'':''" 1 19 "drop 4 s" "''//bsky.app/profile/''"] by simp
  have C: "take 20 (drop 4 s) = ''://bsky.app/profile/'' \<Longrightarrow> take 1 (drop 4 s) \<noteq> ''s''"
    unfolding C0 by simp
  have D: "drop 1 (drop 4 s) = drop 5 s" "drop 20 (drop 5 s) = drop 25 s"
    "drop 20 (drop 4 s) = drop 24 s" by simp_all
  have X: "\<And>u. rx_seq ?X u = (if take 20 u = ''://bsky.app/profile/'' then rx_seq rs (drop 20 u) else [])"
    unfolding rx_seq_Lit l3 by (rule refl)
  have "rx_seq (Lit ''http'' # Opt (Lit ''s'') # ?X) s =
      (if take 4 s = ''http''
       then (if take 1 (drop 4 s) = ''s'' then rx_seq ?X (drop 1 (drop 4 s)) else []) @
            rx_seq ?X (drop 4 s)
       else [])"
    unfolding rx_seq_Lit [of "''http''"] rx_seq_Opt_Lit l1 l2 by (rule refl)
  also have "\<dots> = (case after_profile s of None \<Rightarrow> [] | Some t \<Rightarrow> rx_seq rs t)"
    unfolding X after_profile_def D using A B C by (auto simp del: rx_seq.simps)
  finally show ?thesis .
qed

lemma re_match_web_pattern:
  "re_match web_pattern s =
     (case after_profile s of
        None \<Rightarrow> None
      | Some t \<Rightarrow> map_option (\<lambda>pi. [fst pi, snd pi]) (path_parts t))"
  unfolding re_match_def web_pattern_def rx_seq_scheme
  by (cases "after_profile s") (simp_all only: option.case list.case first_path_web)

lemma re_match_did_in_profile_pattern:
  "re_match did_in_profile_pattern s =
     (case after_profile s of
        None \<Rightarrow> None
      | Some t \<Rightarrow>
          (case path_parts t of
             None \<Rightarrow> None
           | Some pi \<Rightarrow>
               (if take 4 (fst pi) = ''did:'' \<and> 4 < length (fst pi)
                then Some [fst pi, snd pi] else None)))"
  unfolding re_match_def did_in_profile_pattern_def rx_seq_scheme
  by (cases "after_profile s") (simp_all only: option.case list.case first_path_did)

text \<open>
  Which pattern matches a link: the second pattern matches every link the first one
  matches, with the same groups; the first one matches exactly when the profile segment
  is \<^verbatim>\<open>did:\<close> followed by at least one character.
\<close>

lemma did_match_iff:
  "re_match did_in_profile_pattern s = Some gs \<longleftrightarrow>
     (\<exists>p i. re_match web_pattern s = Some [p, i] \<and> gs = [p, i] \<and>
            take 4 p = ''did:'' \<and> 4 < length p)"
  unfolding re_match_web_pattern re_match_did_in_profile_pattern
  by (auto split: option.splits if_splits)

lemma did_match_None_iff:
  "re_match did_in_profile_pattern s = None \<longleftrightarrow>
     (\<forall>p i. re_match web_pattern s = Some [p, i] \<longrightarrow> \<not> (take 4 p = ''did:'' \<and> 4 < length p))"
  unfolding re_match_web_pattern re_match_did_in_profile_pattern
  by (auto split: option.splits if_splits)

lemma web_match_two_groups:
  "re_match web_pattern s = Some gs \<Longrightarrow> \<exists>p i. gs = [p, i] \<and> p \<noteq> [] \<and> i \<noteq> []"
  unfolding re_match_web_pattern
  by (auto simp: path_parts_def Let_def split: option.splits if_splits)

section \<open>Programs and their traces\<close>

lemmas prog_defs =
  bind_def ret_def raise_def lift_def emit_def logging_def get_token_def set_token_def
  except_RequestException_def

lemma emitsD:
  assumes "emits P m" and "m s = (r, s')"
  obtains evs where "trace s' = trace s @ evs" and "list_all P evs"
  using assms unfolding emits_def by (metis snd_conv)

lemma keeps_tokenD:
  "keeps_token m \<Longrightarrow> m s = (r, s') \<Longrightarrow> access_token s' = access_token s"
  unfolding keeps_token_def by (metis snd_conv)

lemma emits_ret: "emits P (ret x)"
  by (simp add: emits_def ret_def)

lemma emits_raise: "emits P (raise e)"
  by (simp add: emits_def raise_def)

lemma emits_lift: "emits P (lift r)"
  by (cases r) (simp_all add: lift_def emits_ret emits_raise)

lemma emits_get_token: "emits P get_token"
  by (simp add: emits_def get_token_def)

lemma emits_set_token: "emits P (set_token t)"
  by (simp add: emits_def set_token_def)

lemma emits_emit: "P ev \<Longrightarrow> emits P (emit ev)"
  by (simp add: emits_def emit_def)

lemma emits_logging: "P (Log l msg) \<Longrightarrow> emits P (logging l msg)"
  by (simp add: logging_def emits_emit)

lemma emits_bind:
  assumes "emits P m" and "\<And>x. emits P (f x)"
  shows "emits P (bind m f)"
  unfolding emits_def
proof
  fix s
  obtain r s1 where m: "m s = (r, s1)" by (cases "m s")
  from assms(1) m obtain evs1 where e1: "trace s1 = trace s @ evs1" "list_all P evs1"
    by (rule emitsD)
  show "\<exists>evs. trace (snd (bind m f s)) = trace s @ evs \<and> list_all P evs"
  proof (cases r)
    case (Inl e)
    then show ?thesis using m e1 by (simp add: bind_def)
  next
    case (Inr x)
    obtain r2 s2 where f: "f x s1 = (r2, s2)" by (cases "f x s1")
    from assms(2) f obtain evs2 where e2: "trace s2 = trace s1 @ evs2" "list_all P evs2"
      by (rule emitsD)
    have "trace s2 = trace s @ (evs1 @ evs2)" using e1 e2 by simp
    moreover have "list_all P (evs1 @ evs2)" using e1 e2 by simp
    ultimately show ?thesis using m f Inr by (auto simp: bind_def)
  qed
qed

lemma emits_except:
  assumes "emits P m" and "\<And>e. emits P (h e)"
  shows "emits P (except_RequestException m h)"
  unfolding emits_def
proof
  fix s
  obtain r s1 where m: "m s = (r, s1)" by (cases "m s")
  from assms(1) m obtain evs1 where e1: "trace s1 = trace s @ evs1" "list_all P evs1"
    by (rule emitsD)
  show "\<exists>evs. trace (snd (except_RequestException m h s)) = trace s @ evs \<and> list_all P evs"
  proof (cases "\<exists>e. r = Inl e \<and> exn_cls e = RequestException")
    case False
    then have "except_RequestException m h s = (r, s1)"
      using m by (cases r) (auto simp: except_RequestException_def)
    then show ?thesis using e1 by auto
  next
    case True
    then obtain e where r: "r = Inl e" "exn_cls e = RequestException" by blast
    obtain r2 s2 where f: "h e s1 = (r2, s2)" by (cases "h e s1")
    from assms(2) f obtain evs2 where e2: "trace s2 = trace s1 @ evs2" "list_all P evs2"
      by (rule emitsD)
    have "trace s2 = trace s @ (evs1 @ evs2)" using e1 e2 by simp
    moreover have "list_all P (evs1 @ evs2)" using e1 e2 by simp
    ultimately show ?thesis using m f r by (auto simp: except_RequestException_def)
  qed
qed

lemma emits_if: "emits P a \<Longrightarrow> emits P b \<Longrightarrow> emits P (if c then a else b)"
  by simp

lemmas emits_intros =
  emits_ret emits_raise emits_lift emits_get_token emits_set_token emits_bind emits_except
  emits_if

lemma keeps_ret: "keeps_token (ret x)"
  by (simp add: keeps_token_def ret_def)

lemma keeps_raise: "keeps_token (raise e)"
  by (simp add: keeps_token_def raise_def)

lemma keeps_lift: "keeps_token (lift r)"
  by (cases r) (simp_all add: lift_def keeps_ret keeps_raise)

lemma keeps_get_token: "keeps_token get_token"
  by (simp add: keeps_token_def get_token_def)

lemma keeps_emit: "keeps_token (emit ev)"
  by (simp add: keeps_token_def emit_def)

lemma keeps_logging: "keeps_token (logging l msg)"
  by (simp add: logging_def keeps_emit)

lemma keeps_bind:
  assumes "keeps_token m" and "\<And>x. keeps_token (f x)"
  shows "keeps_token (bind m f)"
  unfolding keeps_token_def
proof
  fix s
  obtain r s1 where m: "m s = (r, s1)" by (cases "m s")
  have 1: "access_token s1 = access_token s" using assms(1) m by (rule keeps_tokenD)
  show "access_token (snd (bind m f s)) = access_token s"
  proof (cases r)
    case (Inl e)
    then show ?thesis using m 1 by (simp add: bind_def)
  next
    case (Inr x)
    obtain r2 s2 where f: "f x s1 = (r2, s2)" by (cases "f x s1")
    have "access_token s2 = access_token s1" using assms(2) f by (rule keeps_tokenD)
    then show ?thesis using m f Inr 1 by (simp add: bind_def)
  qed
qed

lemma keeps_except:
  assumes "keeps_token m" and "\<And>e. keeps_token (h e)"
  shows "keeps_token (except_RequestException m h)"
  unfolding keeps_token_def
proof
  fix s
  obtain r s1 where m: "m s = (r, s1)" by (cases "m s")
  have 1: "access_token s1 = access_token s" using assms(1) m by (rule keeps_tokenD)
  show "access_token (snd (except_RequestException m h s)) = access_token s"
  proof (cases "\<exists>e. r = Inl e \<and> exn_cls e = RequestException")
    case False
    then have "except_RequestException m h s = (r, s1)"
      using m by (cases r) (auto simp: except_RequestException_def)
    then show ?thesis using 1 by simp
  next
    case True
    then obtain e where r: "r = Inl e" "exn_cls e = RequestException" by blast
    obtain r2 s2 where f: "h e s1 = (r2, s2)" by (cases "h e s1")
    have "access_token s2 = access_token s1" using assms(2) f by (rule keeps_tokenD)
    then show ?thesis using m f r 1 by (simp add: except_RequestException_def)
  qed
qed

lemma keeps_if: "keeps_token a \<Longrightarrow> keeps_token b \<Longrightarrow> keeps_token (if c then a else b)"
  by simp

lemmas keeps_intros =
  keeps_ret keeps_raise keeps_lift keeps_get_token keeps_emit keeps_logging keeps_bind
  keeps_except keeps_if

subsection \<open>What each part of the program emits\<close>

lemma emits_get_access_token:
  assumes "\<And>l m. P (Log l m)" and "\<And>u p. P (CreateSession u p)"
  shows "emits P (get_access_token env)"
  unfolding get_access_token_def
  by (intro emits_intros emits_logging emits_emit assms)

lemma emits_auth_check:
  assumes "\<And>l m. P (Log l m)" and "\<And>u p. P (CreateSession u p)"
  shows "emits P (auth_check env)"
  unfolding auth_check_def
  by (intro emits_intros emits_get_access_token assms)

lemma emits_resolve_did:
  assumes "\<And>l m. P (Log l m)" and "\<And>t h. P (ResolveHandle t h)"
  shows "emits P (resolve_did env handle)"
  unfolding resolve_did_def
  by (intro emits_intros emits_logging emits_emit assms)

lemma emits_fetch_username_from_did:
  assumes "\<And>l m. P (Log l m)" and "\<And>t d. P (GetProfile t d)"
  shows "emits P (fetch_username_from_did env tok did)"
  unfolding fetch_username_from_did_def
  by (intro emits_intros emits_logging emits_emit assms)

lemma emits_read_link:
  assumes "\<And>l m. P (Log l m)"
  shows "emits P (read_link rq)"
  unfolding read_link_def no_link_provided_def
  by (intro emits_intros emits_logging assms)

lemma emits_resolve_link:
  assumes "\<And>l m. P (Log l m)" and "\<And>t h. P (ResolveHandle t h)" and "\<And>t d. P (GetProfile t d)"
  shows "emits P (resolve_link env link)"
  unfolding resolve_link_def Let_def
  by (auto intro!: emits_intros emits_resolve_did emits_fetch_username_from_did assms
      split: option.splits)

lemma emits_generate_chart:
  assumes "\<And>l m. P (Log l m)" and "\<And>c. P (RenderChart c)"
  shows "emits P (generate_chart env c)"
  unfolding generate_chart_def
  by (auto intro!: emits_intros emits_logging emits_emit assms split: option.splits)

lemma emits_render_charts:
  assumes "\<And>l m. P (Log l m)" and "\<And>c. P (RenderChart c)"
  shows "emits P (render_charts env handle post_id reposts likes)"
  unfolding render_charts_def generate_likes_chart_def generate_reposts_chart_def
  by (intro emits_intros emits_logging emits_generate_chart assms)

lemma keeps_resolve_did: "keeps_token (resolve_did env handle)"
  unfolding resolve_did_def by (intro keeps_intros)

lemma keeps_fetch_username_from_did: "keeps_token (fetch_username_from_did env tok did)"
  unfolding fetch_username_from_did_def by (intro keeps_intros)

lemma keeps_read_link: "keeps_token (read_link rq)"
  unfolding read_link_def no_link_provided_def by (intro keeps_intros)

lemma keeps_resolve_link: "keeps_token (resolve_link env link)"
  unfolding resolve_link_def Let_def
  by (auto intro!: keeps_intros keeps_resolve_did keeps_fetch_username_from_did
      split: option.splits)

lemma keeps_generate_chart: "keeps_token (generate_chart env c)"
  unfolding generate_chart_def by (auto intro!: keeps_intros split: option.splits)

lemma keeps_render_charts: "keeps_token (render_charts env handle post_id reposts likes)"
  unfolding render_charts_def generate_likes_chart_def generate_reposts_chart_def
  by (intro keeps_intros keeps_generate_chart)

lemma keeps_fetch_engagement: "keeps_token (fetch_engagement env did post_id)"
  unfolding fetch_engagement_def by (intro keeps_intros)

subsection \<open>Running a program step by step\<close>

lemma bind_ret: "bind (ret x) f s = f x s"
  by (simp add: bind_def ret_def)

lemma bind_raise: "bind (raise e) f s = (Inl e, s)"
  by (simp add: bind_def raise_def)

lemma bind_lift:
  "bind (lift r) f s = (case r of Inl e \<Rightarrow> (Inl e, s) | Inr x \<Rightarrow> f x s)"
  by (cases r) (simp_all add: lift_def bind_def ret_def raise_def)

lemma bind_emit: "bind (emit ev) f s = f () (s\<lparr>trace := trace s @ [ev]\<rparr>)"
  by (simp add: bind_def emit_def)

lemma bind_logging: "bind (logging l msg) f s = f () (s\<lparr>trace := trace s @ [Log l msg]\<rparr>)"
  by (simp add: logging_def bind_emit)

lemma bind_get_token: "bind get_token f s = f (access_token s) s"
  by (simp add: bind_def get_token_def)

lemma bind_set_token: "bind (set_token t) f s = f () (s\<lparr>access_token := t\<rparr>)"
  by (simp add: bind_def set_token_def)

lemma run_ret: "ret x s = (Inr x, s)"
  by (simp add: ret_def)

lemma run_raise: "raise e s = (Inl e, s)"
  by (simp add: raise_def)

lemma run_logging: "logging l msg s = (Inr (), s\<lparr>trace := trace s @ [Log l msg]\<rparr>)"
  by (simp add: logging_def emit_def)

lemma run_lift: "lift r s = (case r of Inl e \<Rightarrow> (Inl e, s) | Inr x \<Rightarrow> (Inr x, s))"
  by (cases r) (simp_all add: lift_def ret_def raise_def)

lemma bind_if: "bind (if c then a else b) f s = (if c then bind a f s else bind b f s)"
  by simp

lemma bind_assoc: "bind (bind m f) g = bind m (\<lambda>x. bind (f x) g)"
  by (auto simp: bind_def fun_eq_iff split: prod.splits sum.splits)

lemma except_result:
  "except_RequestException m h s =
     (case m s of
        (Inl e, s') \<Rightarrow> (if exn_cls e = RequestException then h e s' else (Inl e, s'))
      | (Inr x, s') \<Rightarrow> (Inr x, s'))"
  by (simp add: except_RequestException_def)

lemma bind_except:
  "bind (except_RequestException m h) f s =
     (case m s of
        (Inl e, s') \<Rightarrow> (if exn_cls e = RequestException then bind (h e) f s' else (Inl e, s'))
      | (Inr x, s') \<Rightarrow> f x s')"
  by (simp add: bind_def except_RequestException_def split: prod.splits sum.splits)

lemmas run_simps =
  bind_ret bind_raise bind_lift bind_emit bind_logging bind_get_token bind_set_token
  run_ret run_raise run_logging run_lift bind_assoc bind_if bind_except except_result

subsection \<open>The credential\<close>

lemma auth_check_truthy: "truthy (access_token s) \<Longrightarrow> auth_check env s = (Inr (), s)"
  by (simp add: auth_check_def run_simps)

lemma get_access_token_ok_truthy:
  "get_access_token env s = (Inr u, s') \<Longrightarrow> truthy (access_token s')"
  unfolding get_access_token_def except_result
  by (auto simp: run_simps split: sum.splits if_splits)

lemma auth_check_ok_truthy: "auth_check env s = (Inr u, s') \<Longrightarrow> truthy (access_token s')"
  using get_access_token_ok_truthy [of env s u s']
  by (auto simp: auth_check_def run_simps split: if_splits)


lemma generate_charts_cases:
  assumes "generate_charts env rq tok = (resp, tok', tr)"
  obtains (raised) e s' where
      "generate_charts_try env rq \<lparr>access_token = tok, trace = []\<rparr> = (Inl e, s')"
      "resp = error_response (''Error generating charts: '' @ exn_str e) 500"
      "tok' = access_token s'"
      "tr = trace s' @ [Log ERROR (''Error generating charts: '' @ exn_str e)]"
  | (returned) s' where
      "generate_charts_try env rq \<lparr>access_token = tok, trace = []\<rparr> = (Inr resp, s')"
      "tok' = access_token s'"
      "tr = trace s'"
  using assms unfolding generate_charts_def
  by (auto split: prod.splits sum.splits)

text \<open>The part of the body after the credential check (lines 264-314).\<close>

lemma generate_charts_try_auth:
  "generate_charts_try env rq s =
     (case auth_check env s of
        (Inl e, s1) \<Rightarrow> (Inl e, s1)
      | (Inr u, s1) \<Rightarrow>
          bind (read_link rq) (\<lambda>l.
            case l of
              Inl early \<Rightarrow> ret early
            | Inr link \<Rightarrow>
                bind (resolve_link env link) (\<lambda>r.
                case r of
                  Inl early \<Rightarrow> ret early
                | Inr (did, handle, post_id) \<Rightarrow>
                    bind (fetch_engagement env did post_id) (\<lambda>c.
                    render_charts env handle post_id (fst c) (snd c)))) s1)"
  unfolding generate_charts_try_def bind_def [of "auth_check env"] by (rule refl)

lemma emits_after_auth:
  assumes "\<And>l m. P (Log l m)" and "\<And>t h. P (ResolveHandle t h)" and "\<And>t d. P (GetProfile t d)"
    and "\<And>t u. P (GetRepostedBy t u)" and "\<And>t u. P (GetLikes t u)" and "\<And>c. P (RenderChart c)"
  shows "emits P (bind (read_link rq) (\<lambda>l.
            case l of
              Inl early \<Rightarrow> ret early
            | Inr link \<Rightarrow>
                bind (resolve_link env link) (\<lambda>r.
                case r of
                  Inl early \<Rightarrow> ret early
                | Inr (did, handle, post_id) \<Rightarrow>
                    bind (fetch_engagement env did post_id) (\<lambda>c.
                    render_charts env handle post_id (fst c) (snd c)))))"
  unfolding fetch_engagement_def
  by (auto intro!: emits_intros emits_read_link emits_resolve_link emits_render_charts
      emits_emit assms split: sum.splits prod.splits)

lemma keeps_after_auth:
  "keeps_token (bind (read_link rq) (\<lambda>l.
            case l of
              Inl early \<Rightarrow> ret early
            | Inr link \<Rightarrow>
                bind (resolve_link env link) (\<lambda>r.
                case r of
                  Inl early \<Rightarrow> ret early
                | Inr (did, handle, post_id) \<Rightarrow>
                    bind (fetch_engagement env did post_id) (\<lambda>c.
                    render_charts env handle post_id (fst c) (snd c)))))"
  by (auto intro!: keeps_intros keeps_read_link keeps_resolve_link keeps_render_charts
      keeps_fetch_engagement split: sum.splits prod.splits)

lemma cached_credential_run:
  assumes "truthy tok" and "generate_charts env rq tok = (resp, tok', tr)"
  shows "tok' = tok \<and> list_all (\<lambda>ev. \<not> is_create_session ev) tr"
proof -
  let ?s0 = "\<lparr>access_token = tok, trace = []\<rparr> :: 'a state"
  let ?rest = "bind (read_link rq) (\<lambda>l.
            case l of
              Inl early \<Rightarrow> ret early
            | Inr link \<Rightarrow>
                bind (resolve_link env link) (\<lambda>r.
                case r of
                  Inl early \<Rightarrow> ret early
                | Inr (did, handle, post_id) \<Rightarrow>
                    bind (fetch_engagement env did post_id) (\<lambda>c.
                    render_charts env handle post_id (fst c) (snd c))))"
  have a: "auth_check env ?s0 = (Inr (), ?s0)"
    using assms(1) by (simp add: auth_check_truthy)
  have t: "generate_charts_try env rq ?s0 = ?rest ?s0"
    unfolding generate_charts_try_auth a by simp
  have e: "emits (\<lambda>ev. \<not> is_create_session ev) ?rest"
    by (rule emits_after_auth) simp_all
  have k: "keeps_token ?rest" by (rule keeps_after_auth)
  from assms(2) show ?thesis
  proof (cases rule: generate_charts_cases)
    case (raised e' s')
    then have r: "?rest ?s0 = (Inl e', s')" using t by simp
    from e r obtain evs where "trace s' = trace ?s0 @ evs" "list_all (\<lambda>ev. \<not> is_create_session ev) evs"
      by (rule emitsD)
    moreover have "access_token s' = tok" using keeps_tokenD [OF k r] by simp
    ultimately show ?thesis using raised by simp
  next
    case (returned s')
    then have r: "?rest ?s0 = (Inr resp, s')" using t by simp
    from e r obtain evs where "trace s' = trace ?s0 @ evs" "list_all (\<lambda>ev. \<not> is_create_session ev) evs"
      by (rule emitsD)
    moreover have "access_token s' = tok" using keeps_tokenD [OF k r] by simp
    ultimately show ?thesis using returned by simp
  qed
qed

subsection \<open>The stages of a request\<close>

lemma bind_run:
  "m s = (r, s1) \<Longrightarrow>
   bind m f s = (case r of Inl e \<Rightarrow> (Inl e, s1) | Inr x \<Rightarrow> f x s1)"
  by (simp add: bind_def split: sum.splits)

text \<open>
  A run of the body either ends before the fetch stage, having made no engagement fetch,
  or reaches it with a credential that is not empty.
\<close>

lemma before_fetch_cases:
  assumes "generate_charts_try env rq s0 = (r, s')"
  obtains (early) evs where
      "trace s' = trace s0 @ evs" "list_all (\<lambda>ev. \<not> is_fetch ev) evs"
  | (fetch) evs did handle post_id s3 where
      "trace s3 = trace s0 @ evs" "list_all (\<lambda>ev. \<not> is_fetch ev) evs"
      "truthy (access_token s3)"
      "bind (fetch_engagement env did post_id)
         (\<lambda>c. render_charts env handle post_id (fst c) (snd c)) s3 = (r, s')"
proof -
  let ?P = "\<lambda>ev :: 'a event. \<not> is_fetch ev"
  obtain ra s1 where a: "auth_check env s0 = (ra, s1)" by (cases "auth_check env s0")
  have "emits ?P (auth_check env)" by (rule emits_auth_check) simp_all
  from this a obtain evs1 where t1: "trace s1 = trace s0 @ evs1" "list_all ?P evs1"
    by (rule emitsD)
  show thesis
  proof (cases ra)
    case (Inl e)
    then have "s' = s1" using assms a unfolding generate_charts_try_auth by simp
    then show thesis using early t1 by simp
  next
    case (Inr u)
    have tok1: "truthy (access_token s1)" using a Inr auth_check_ok_truthy by blast
    obtain rl s2 where b: "read_link rq s1 = (rl, s2)" by (cases "read_link rq s1")
    have "emits ?P (read_link rq)" by (rule emits_read_link) simp
    from this b obtain evs2 where t2: "trace s2 = trace s1 @ evs2" "list_all ?P evs2"
      by (rule emitsD)
    have tok2: "access_token s2 = access_token s1" using keeps_read_link b by (rule keeps_tokenD)
    have run1: "(r, s') =
        (case rl of
           Inl e \<Rightarrow> (Inl e, s2)
         | Inr l \<Rightarrow>
             (case l of
                Inl early \<Rightarrow> ret early
              | Inr link \<Rightarrow>
                  bind (resolve_link env link) (\<lambda>r.
                  case r of
                    Inl early \<Rightarrow> ret early
                  | Inr (did, handle, post_id) \<Rightarrow>
                      bind (fetch_engagement env did post_id) (\<lambda>c.
                      render_charts env handle post_id (fst c) (snd c)))) s2)"
      using assms a Inr unfolding generate_charts_try_auth by (simp add: bind_run [of "read_link rq" s1 rl s2, OF b])
    have t02: "trace s2 = trace s0 @ (evs1 @ evs2)" "list_all ?P (evs1 @ evs2)"
      using t1 t2 by simp_all
    show thesis
    proof (cases rl)
      case (Inl e)
      then have "s' = s2" using run1 by simp
      then show thesis using early t02 by blast
    next
      case l: (Inr l)
      show thesis
      proof (cases l)
        case (Inl early')
        then have "s' = s2" using run1 l by (simp add: ret_def)
        then show thesis using early t02 by blast
      next
        case link: (Inr link)
        obtain rr s3 where c: "resolve_link env link s2 = (rr, s3)"
          by (cases "resolve_link env link s2")
        have "emits ?P (resolve_link env link)" by (rule emits_resolve_link) simp_all
        from this c obtain evs3 where t3: "trace s3 = trace s2 @ evs3" "list_all ?P evs3"
          by (rule emitsD)
        have tok3: "access_token s3 = access_token s2"
          using keeps_resolve_link c by (rule keeps_tokenD)
        have t03: "trace s3 = trace s0 @ (evs1 @ evs2 @ evs3)" "list_all ?P (evs1 @ evs2 @ evs3)"
          using t02 t3 by simp_all
        have run2: "(r, s') =
            (case rr of
               Inl e \<Rightarrow> (Inl e, s3)
             | Inr x \<Rightarrow>
                 (case x of
                    Inl early \<Rightarrow> ret early
                  | Inr (did, handle, post_id) \<Rightarrow>
                      bind (fetch_engagement env did post_id) (\<lambda>c.
                      render_charts env handle post_id (fst c) (snd c))) s3)"
          using run1 l link by (simp add: bind_run [of "resolve_link env link" s2 rr s3, OF c])
        show thesis
        proof (cases rr)
          case (Inl e)
          then have "s' = s3" using run2 by simp
          then show thesis using early t03 by blast
        next
          case x: (Inr x)
          show thesis
          proof (cases x)
            case (Inl early')
            then have "s' = s3" using run2 x by (simp add: ret_def)
            then show thesis using early t03 by blast
          next
            case (Inr triple)
            obtain did handle post_id where tr: "triple = (did, handle, post_id)"
              by (cases triple)
            have "bind (fetch_engagement env did post_id)
                (\<lambda>c. render_charts env handle post_id (fst c) (snd c)) s3 = (r, s')"
              using run2 x Inr tr by simp
            moreover have "truthy (access_token s3)" using tok1 tok2 tok3 by simp
            ultimately show thesis using fetch t03 by blast
          qed
        qed
      qed
    qed
  qed
qed

text \<open>Lines 287-300, run on a state.\<close>

lemma fetch_engagement_run:
  "fetch_engagement env did post_id s =
     (let tok = access_token s; uri = at_uri_of env did post_id;
          s1 = s\<lparr>trace := trace s @ [GetRepostedBy tok uri]\<rparr>;
          s2 = s\<lparr>trace := trace s @ [GetRepostedBy tok uri, GetLikes tok uri]\<rparr>
      in case getRepostedBy env tok uri of
           Inl e \<Rightarrow> (Inl e, s1)
         | Inr rr \<Rightarrow>
             (case collection_of rr ''repostedBy'' of
                Inl e \<Rightarrow> (Inl e, s1)
              | Inr reposts \<Rightarrow>
                  (case getLikes env tok uri of
                     Inl e \<Rightarrow> (Inl e, s2)
                   | Inr lr \<Rightarrow>
                       (case collection_of lr ''likes'' of
                          Inl e \<Rightarrow> (Inl e, s2)
                        | Inr likes \<Rightarrow> (Inr (reposts, likes), s2)))))"
  unfolding fetch_engagement_def Let_def
  by (simp add: run_simps split: sum.splits)

subsection \<open>Evaluating a run on a sample world\<close>

lemmas program_defs =
  generate_charts_def generate_charts_try_def auth_check_def get_access_token_def
  read_link_def no_link_provided_def resolve_link_def resolve_did_def
  fetch_username_from_did_def fetch_engagement_def render_charts_def
  generate_likes_chart_def generate_reposts_chart_def generate_chart_def
  collection_of_def at_uri_of_def chart_response_def error_response_def
  raise_for_status_def indexed_at_def

lemmas python_defs =
  py_get_def py_contains_def py_index_def py_iter_def py_split_def py_first_def
  py_strip_def py_str_def unpack2_def no_attribute_def quoted_def strip_def is_space_def

lemmas link_defs =
  re_match_web_pattern re_match_did_in_profile_pattern after_profile_def path_parts_def

lemmas bucket_defs =
  daily_buckets_def date_of_def fromisoformat_def invalid_isoformat_def digit_of_def
  days_in_month_def is_leap_def Counter_def counter_keys_def counter_get_def

lemmas sample_defs =
  sample_env_def sample_likes_def sample_reposts_def ok_response_def failed_response_def
  request_with_link_def

lemmas run_defs = program_defs python_defs link_defs bucket_defs sample_defs run_simps

section \<open>The claims about the endpoint\<close>

text \<open>
  Claim C2. The claim asks that the actor identifier in the resource string of every
  engagement fetch be a resolved identifier. The program does not check what
  \<open>resolve_did\<close> returns: for a handle-form link whose handle the remote API rejects,
  the two fetches are made with \<^verbatim>\<open>at://None/app.bsky.feed.post/3kabc\<close>, and the
  response is a success. (The credential of every call is the cached one.)
\<close>

theorem unresolved_actor_reaches_fetch:
  "generate_charts
     (sample_env\<lparr>resolveHandle :=
        (\<lambda>t h. Inr (failed_response 400 ''400 Client Error: Bad Request''))\<rparr>)
     (request_with_link ''https://bsky.app/profile/nobody.example/post/3kabc'')
     (JStr ''jwt-0'')
   = (\<lparr>body = [(''likes_chart'', JStr ''static/likes_chart.png''),
               (''reposts_chart'', JStr ''static/reposts_chart.png'')],
       status = 200\<rparr>,
      JStr ''jwt-0'',
      [Log INFO ''Received link: https://bsky.app/profile/nobody.example/post/3kabc'',
       Log INFO ''Resolving DID for handle: nobody.example'',
       ResolveHandle (JStr ''jwt-0'') ''nobody.example'',
       Log ERROR
         ''Error resolving DID for handle nobody.example: 400 Client Error: Bad Request'',
       GetRepostedBy (JStr ''jwt-0'') ''at://None/app.bsky.feed.post/3kabc'',
       GetLikes (JStr ''jwt-0'') ''at://None/app.bsky.feed.post/3kabc'',
       Log INFO ''Generating likes chart...'',
       RenderChart
         \<lparr>colors = [''#ff69b4'', ''#ff69b4''],
          title = ''Likes Over Time for @nobody.example'' @ [CHR 0x0A] @
                  ''Post: https://bsky.app/profile/nobody.example/post/3kabc'',
          xlabel = ''Date'', ylabel = ''Number of Likes'',
          dates = [(2024, 1, 1), (2024, 1, 2)], counts = [2, 1],
          chart_image_path = ''static/likes_chart.png''\<rparr>,
       Log INFO ''Chart saved to static/likes_chart.png'',
       Log INFO ''Generating reposts chart...'',
       RenderChart
         \<lparr>colors = [''#ff85c0''],
          title = ''Reposts Over Time for @nobody.example'',
          xlabel = ''Date'', ylabel = ''Number of Reposts'',
          dates = [(2024, 1, 2)], counts = [1],
          chart_image_path = ''static/reposts_chart.png''\<rparr>,
       Log INFO ''Chart saved to static/reposts_chart.png''])"
  by (simp add: run_defs)

text \<open>
  Claim C6. When a request leaves a credential cached, the next request, whatever it is
  and whatever the remote API answers, creates no session and leaves the credential as
  it is; and a request creates a session only if it started without a credential.
\<close>

theorem cached_credential_never_reauthenticates:
  assumes "generate_charts env1 rq1 tok0 = (resp1, tok1, tr1)"
    and "truthy tok1"
    and "generate_charts env2 rq2 tok1 = (resp2, tok2, tr2)"
  shows "list_all (\<lambda>ev. \<not> is_create_session ev) tr2 \<and> tok2 = tok1 \<and>
         (\<not> list_all (\<lambda>ev. \<not> is_create_session ev) tr1 \<longrightarrow> \<not> truthy tok0)"
proof -
  have "tok2 = tok1 \<and> list_all (\<lambda>ev. \<not> is_create_session ev) tr2"
    using assms(2) assms(3) by (rule cached_credential_run)
  moreover have "\<not> list_all (\<lambda>ev. \<not> is_create_session ev) tr1 \<longrightarrow> \<not> truthy tok0"
    using cached_credential_run [OF _ assms(1)] by blast
  ultimately show ?thesis by simp
qed

lemma first_request_run:
  "generate_charts sample_env
     (request_with_link ''ftp://bsky.app/profile/alice.bsky.social/post/3kabc'') JNull
   = (\<lparr>body = [(''error'', JStr ''Invalid link format.'')], status = 400\<rparr>,
      JStr ''jwt-1'',
      [Log INFO ''Attempting to log into Bluesky...'',
       CreateSession (JStr ''viewer.bsky.social'') (JStr ''app-password''),
       Log INFO ''Login successful. Access token retrieved.'',
       Log INFO ''Received link: ftp://bsky.app/profile/alice.bsky.social/post/3kabc''])"
  by (simp add: run_defs)

lemma second_request_run:
  "generate_charts sample_env
     (request_with_link ''https://bsky.app/profile/did:plc:alice/post/3kabc'') (JStr ''jwt-1'')
   = (\<lparr>body = [(''likes_chart'', JStr ''static/likes_chart.png''),
               (''reposts_chart'', JStr ''static/reposts_chart.png'')],
       status = 200\<rparr>,
      JStr ''jwt-1'',
      [Log INFO ''Received link: https://bsky.app/profile/did:plc:alice/post/3kabc'',
       GetProfile (JStr ''jwt-1'') ''did:plc:alice'',
       Log INFO ''Resolved handle for DID did:plc:alice: alice.bsky.social'',
       GetRepostedBy (JStr ''jwt-1'') ''at://did:plc:alice/app.bsky.feed.post/3kabc'',
       GetLikes (JStr ''jwt-1'') ''at://did:plc:alice/app.bsky.feed.post/3kabc'',
       Log INFO ''Generating likes chart...'',
       RenderChart
         \<lparr>colors = [''#ff69b4'', ''#ff69b4''],
          title = ''Likes Over Time for @alice.bsky.social'' @ [CHR 0x0A] @
                  ''Post: https://bsky.app/profile/alice.bsky.social/post/3kabc'',
          xlabel = ''Date'', ylabel = ''Number of Likes'',
          dates = [(2024, 1, 1), (2024, 1, 2)], counts = [2, 1],
          chart_image_path = ''static/likes_chart.png''\<rparr>,
       Log INFO ''Chart saved to static/likes_chart.png'',
       Log INFO ''Generating reposts chart...'',
       RenderChart
         \<lparr>colors = [''#ff85c0''],
          title = ''Reposts Over Time for @alice.bsky.social'',
          xlabel = ''Date'', ylabel = ''Number of Reposts'',
          dates = [(2024, 1, 2)], counts = [1],
          chart_image_path = ''static/reposts_chart.png''\<rparr>,
       Log INFO ''Chart saved to static/reposts_chart.png''])"
  by (simp add: run_defs)

theorem cached_credential_never_reauthenticates_witness:
  "fst (snd (generate_charts sample_env
      (request_with_link ''ftp://bsky.app/profile/alice.bsky.social/post/3kabc'') JNull))
     = JStr ''jwt-1'' \<and>
   truthy (JStr ''jwt-1'') \<and>
   list_all (\<lambda>ev. \<not> is_create_session ev)
     (snd (snd (generate_charts sample_env
        (request_with_link ''https://bsky.app/profile/did:plc:alice/post/3kabc'')
        (JStr ''jwt-1'')))) \<and>
   fst (snd (generate_charts sample_env
      (request_with_link ''https://bsky.app/profile/did:plc:alice/post/3kabc'')
      (JStr ''jwt-1''))) = JStr ''jwt-1''"
proof -
  have t: "truthy (JStr ''jwt-1'')" by simp
  note c = cached_credential_never_reauthenticates [OF first_request_run t second_request_run]
  from c have 1: "list_all (\<lambda>ev. \<not> is_create_session ev)
     (snd (snd (generate_charts sample_env
        (request_with_link ''https://bsky.app/profile/did:plc:alice/post/3kabc'')
        (JStr ''jwt-1''))))"
    unfolding second_request_run snd_conv by (rule conjunct1)
  have a: "fst (snd (generate_charts sample_env
      (request_with_link ''ftp://bsky.app/profile/alice.bsky.social/post/3kabc'') JNull))
     = JStr ''jwt-1''"
    by (simp add: first_request_run)
  have b: "fst (snd (generate_charts sample_env
      (request_with_link ''https://bsky.app/profile/did:plc:alice/post/3kabc'')
      (JStr ''jwt-1''))) = JStr ''jwt-1''"
    by (simp add: second_request_run)
  from a t 1 b show ?thesis by blast
qed

text \<open>
  Claim C9. The endpoint always answers with a response: whenever the body of the
  \<^verbatim>\<open>try\<close> raises, at whatever step, the response is the error object with the
  text of the exception and status 500, and the error is logged; otherwise it is the
  response of the body.
\<close>

theorem every_exception_becomes_a_500:
  "(generate_charts_try env rq \<lparr>access_token = tok, trace = []\<rparr> = (Inl e, s) \<longrightarrow>
      generate_charts env rq tok =
        (\<lparr>body = [(''error'', JStr (''Error generating charts: '' @ exn_str e))], status = 500\<rparr>,
         access_token s,
         trace s @ [Log ERROR (''Error generating charts: '' @ exn_str e)])) \<and>
   (generate_charts_try env rq \<lparr>access_token = tok, trace = []\<rparr> = (Inr resp, s) \<longrightarrow>
      generate_charts env rq tok = (resp, access_token s, trace s))"
  by (simp add: generate_charts_def error_response_def)

lemma unparsable_timestamp_run:
  "generate_charts_try
     (sample_env\<lparr>getLikes :=
        (\<lambda>t u. Inr (ok_response (JObj [(''likes'', JArr [JObj [(''indexedAt'', JStr ''yesterday'')]])])))\<rparr>)
     (request_with_link ''https://bsky.app/profile/did:plc:alice/post/3kabc'')
     \<lparr>access_token = JStr ''jwt-0'', trace = []\<rparr>
   = (Inl (PyExn ValueError (''Invalid isoformat string: '' @ [CHR 0x27] @ ''yesterday'' @ [CHR 0x27])),
      \<lparr>access_token = JStr ''jwt-0'',
       trace =
         [Log INFO ''Received link: https://bsky.app/profile/did:plc:alice/post/3kabc'',
          GetProfile (JStr ''jwt-0'') ''did:plc:alice'',
          Log INFO ''Resolved handle for DID did:plc:alice: alice.bsky.social'',
          GetRepostedBy (JStr ''jwt-0'') ''at://did:plc:alice/app.bsky.feed.post/3kabc'',
          GetLikes (JStr ''jwt-0'') ''at://did:plc:alice/app.bsky.feed.post/3kabc'',
          Log INFO ''Generating likes chart...'']\<rparr>)"
  by (simp add: run_defs)

theorem every_exception_becomes_a_500_witness:
  "generate_charts
     (sample_env\<lparr>getLikes :=
        (\<lambda>t u. Inr (ok_response (JObj [(''likes'', JArr [JObj [(''indexedAt'', JStr ''yesterday'')]])])))\<rparr>)
     (request_with_link ''https://bsky.app/profile/did:plc:alice/post/3kabc'')
     (JStr ''jwt-0'')
   = (\<lparr>body = [(''error'', JStr (''Error generating charts: Invalid isoformat string: '' @
                  [CHR 0x27] @ ''yesterday'' @ [CHR 0x27]))],
       status = 500\<rparr>,
      JStr ''jwt-0'',
      [Log INFO ''Received link: https://bsky.app/profile/did:plc:alice/post/3kabc'',
       GetProfile (JStr ''jwt-0'') ''did:plc:alice'',
       Log INFO ''Resolved handle for DID did:plc:alice: alice.bsky.social'',
       GetRepostedBy (JStr ''jwt-0'') ''at://did:plc:alice/app.bsky.feed.post/3kabc'',
       GetLikes (JStr ''jwt-0'') ''at://did:plc:alice/app.bsky.feed.post/3kabc'',
       Log INFO ''Generating likes chart...'',
       Log ERROR (''Error generating charts: Invalid isoformat string: '' @
                  [CHR 0x27] @ ''yesterday'' @ [CHR 0x27])])"
proof -
  note t = every_exception_becomes_a_500
    [of "sample_env\<lparr>getLikes :=
        (\<lambda>t u. Inr (ok_response (JObj [(''likes'', JArr [JObj [(''indexedAt'', JStr ''yesterday'')]])])))\<rparr>"
      "request_with_link ''https://bsky.app/profile/did:plc:alice/post/3kabc''"
      "JStr ''jwt-0''"
      "PyExn ValueError (''Invalid isoformat string: '' @ [CHR 0x27] @ ''yesterday'' @ [CHR 0x27])"]
  from t [THEN conjunct1, THEN mp, OF unparsable_timestamp_run] show ?thesis by simp
qed

end
